theory Spec2Isabelle
  imports Complex_Main "HOL-Library.Sublist"
begin

section \<open>Values of the Python program\<close>

text \<open>
  The program is \<^verbatim>\<open>scripts/data_transformation.py\<close>. Its numbers are Python floats
  (IEEE doubles) and Python integers.

  A float is modelled by \<open>pyfloat\<close>: a finite double is the exact rational it holds, and
  the three special values are constructors of their own. Comparisons with NaN are false,
  as in Python. The range of a double is modelled (a result at or beyond the overflow
  bound is an infinity, and a decimal string too small for the least double is parsed to
  zero), rounding to 53 bits and the sign of zero are not: \<open>Fin v\<close> stands for the double
  nearest to \<open>v\<close>.
  Python integers are \<open>int\<close>. Strings are \<open>string\<close> and the model reads them as ASCII.
\<close>

datatype pyfloat = Fin rat | PInf | NInf | NaN

datatype py_error = OverflowError | TypeError | ZeroDivisionError | DateParseError

text \<open>\<^verbatim>\<open>x > c\<close>, \<^verbatim>\<open>x < c\<close> and \<^verbatim>\<open>x == c\<close> of a float \<open>x\<close> and a finite literal \<open>c\<close>.\<close>

fun py_gt :: "pyfloat \<Rightarrow> rat \<Rightarrow> bool" where
  "py_gt (Fin a) c = (c < a)"
| "py_gt PInf c = True"
| "py_gt NInf c = False"
| "py_gt NaN c = False"

fun py_lt :: "pyfloat \<Rightarrow> rat \<Rightarrow> bool" where
  "py_lt (Fin a) c = (a < c)"
| "py_lt PInf c = False"
| "py_lt NInf c = True"
| "py_lt NaN c = False"

fun py_eq :: "pyfloat \<Rightarrow> rat \<Rightarrow> bool" where
  "py_eq (Fin a) c = (a = c)"
| "py_eq PInf c = False"
| "py_eq NInf c = False"
| "py_eq NaN c = False"

text \<open>
  A field of a row holds a number or a string. A row is dict-like: \<^verbatim>\<open>row.get(k, 0)\<close>
  is the field, or 0 when the row has no field \<open>k\<close>.
\<close>

datatype val = Num pyfloat | Str string

type_synonym row = "string \<Rightarrow> val option"

definition row_get :: "row \<Rightarrow> string \<Rightarrow> val" where
  "row_get r k = (case r k of None \<Rightarrow> Num (Fin 0) | Some v \<Rightarrow> v)"

section \<open>Health score and performance tier\<close>

text \<open>
  \<^verbatim>\<open>calculate_health_score\<close>: the score starts at 50 and is updated by four
  \<^verbatim>\<open>if/elif\<close> chains, one per field, in the order of the source. Comparing a string
  with a number raises TypeError in Python; every chain starts with a comparison of its
  field, so a string in one of the four fields is an error of the whole call.
\<close>

definition profit_step :: "int \<Rightarrow> pyfloat \<Rightarrow> int" where
  "profit_step score net_profit =
     (if py_gt net_profit 500 then score + 20
      else if py_gt net_profit 200 then score + 15
      else if py_gt net_profit 100 then score + 10
      else if py_gt net_profit 50 then score + 5
      else if py_lt net_profit 0 then score - 15
      else score)"

definition units_step :: "int \<Rightarrow> pyfloat \<Rightarrow> int" where
  "units_step score units =
     (if py_gt units 50 then score + 15
      else if py_gt units 25 then score + 10
      else if py_gt units 10 then score + 5
      else if py_eq units 0 then score - 10
      else score)"

definition roi_step :: "int \<Rightarrow> pyfloat \<Rightarrow> int" where
  "roi_step score roi =
     (if py_gt roi 50 then score + 10
      else if py_gt roi 25 then score + 5
      else if py_lt roi 0 then score - 10
      else score)"

definition margin_step :: "int \<Rightarrow> pyfloat \<Rightarrow> int" where
  "margin_step score margin =
     (if py_gt margin 20 then score + 5
      else if py_lt margin 5 then score - 5
      else score)"

definition calculate_health_score :: "row \<Rightarrow> py_error + int" where
  "calculate_health_score r =
     (case row_get r ''Net_Profit'' of
        Str _ \<Rightarrow> Inl TypeError
      | Num net_profit \<Rightarrow>
     (case row_get r ''Units_Sold'' of
        Str _ \<Rightarrow> Inl TypeError
      | Num units \<Rightarrow>
     (case row_get r ''ROI_Pct'' of
        Str _ \<Rightarrow> Inl TypeError
      | Num roi \<Rightarrow>
     (case row_get r ''Margin_Pct'' of
        Str _ \<Rightarrow> Inl TypeError
      | Num margin \<Rightarrow>
          Inr (max 0 (min 100
            (margin_step (roi_step (units_step (profit_step 50 net_profit) units) roi) margin)))))))"

text \<open>\<^verbatim>\<open>assign_performance_tier\<close>, on the integer score.\<close>

definition assign_performance_tier :: "int \<Rightarrow> string" where
  "assign_performance_tier health_score =
     (if health_score \<ge> 80 then ''Star''
      else if health_score \<ge> 60 then ''Strong''
      else if health_score \<ge> 45 then ''Average''
      else ''Weak'')"

subsection \<open>The scorer as the specification words it\<close>

text \<open>
  The specification describes the scorer as a base score plus four adjustments, each read
  off a fixed threshold table, summed and clamped. A table is a list of
  (threshold, bonus) pairs, highest threshold first; the bonus of the first threshold the
  value exceeds applies. Below the table, a penalty condition may apply instead.
\<close>

fun table_bonus :: "(rat \<times> int) list \<Rightarrow> pyfloat \<Rightarrow> int option" where
  "table_bonus [] x = None"
| "table_bonus ((t, b) # tbl) x = (if py_gt x t then Some b else table_bonus tbl x)"

definition adjustment :: "(rat \<times> int) list \<Rightarrow> (pyfloat \<Rightarrow> bool) \<Rightarrow> int \<Rightarrow> pyfloat \<Rightarrow> int" where
  "adjustment tbl penalised penalty x =
     (case table_bonus tbl x of
        Some b \<Rightarrow> b
      | None \<Rightarrow> if penalised x then - penalty else 0)"

definition profit_adj :: "pyfloat \<Rightarrow> int" where
  "profit_adj = adjustment [(500, 20), (200, 15), (100, 10), (50, 5)] (\<lambda>x. py_lt x 0) 15"

definition velocity_adj :: "pyfloat \<Rightarrow> int" where
  "velocity_adj = adjustment [(50, 15), (25, 10), (10, 5)] (\<lambda>x. py_eq x 0) 10"

definition roi_adj :: "pyfloat \<Rightarrow> int" where
  "roi_adj = adjustment [(50, 10), (25, 5)] (\<lambda>x. py_lt x 0) 10"

definition margin_adj :: "pyfloat \<Rightarrow> int" where
  "margin_adj = adjustment [(20, 5)] (\<lambda>x. py_lt x 5) 5"

definition clamp_score :: "int \<Rightarrow> int" where
  "clamp_score s = (if s < 0 then 0 else if 100 < s then 100 else s)"

definition numeric_field :: "row \<Rightarrow> string \<Rightarrow> bool" where
  "numeric_field r k = (case row_get r k of Num _ \<Rightarrow> True | Str _ \<Rightarrow> False)"

definition field_num :: "row \<Rightarrow> string \<Rightarrow> pyfloat" where
  "field_num r k = (case row_get r k of Num x \<Rightarrow> x | Str _ \<Rightarrow> NaN)"

definition score_fields :: "string list" where
  "score_fields = [''Net_Profit'', ''Units_Sold'', ''ROI_Pct'', ''Margin_Pct'']"

definition example_row :: "row" where
  "example_row =
     [''SKU'' \<mapsto> Str ''B00X'', ''Net_Profit'' \<mapsto> Num (Fin 250), ''Units_Sold'' \<mapsto> Num (Fin 30),
      ''ROI_Pct'' \<mapsto> Num (Fin 40), ''Margin_Pct'' \<mapsto> Num (Fin (25 / 2))]"

definition worst_row :: "row" where
  "worst_row =
     [''Net_Profit'' \<mapsto> Num (Fin (- 1)), ''Units_Sold'' \<mapsto> Num (Fin 0),
      ''ROI_Pct'' \<mapsto> Num (Fin (- 2)), ''Margin_Pct'' \<mapsto> Num (Fin 4)]"

section \<open>Categorizer\<close>

text \<open>
  \<^verbatim>\<open>str.lower()\<close> on ASCII text: the 26 capital letters map to their small letters,
  every other character is kept.
\<close>

definition lower_char :: "char \<Rightarrow> char" where
  "lower_char c =
     (case map_of (zip ''ABCDEFGHIJKLMNOPQRSTUVWXYZ'' ''abcdefghijklmnopqrstuvwxyz'') c of
        Some d \<Rightarrow> d
      | None \<Rightarrow> c)"

definition str_lower :: "string \<Rightarrow> string" where
  "str_lower s = map lower_char s"

text \<open>\<^verbatim>\<open>kw in s\<close> on strings: \<open>kw\<close> starts at some position of \<open>s\<close>.\<close>

fun contains :: "string \<Rightarrow> string \<Rightarrow> bool" where
  "contains kw [] = (kw = [])"
| "contains kw (c # cs) = (prefix kw (c # cs) \<or> contains kw cs)"

text \<open>The dictionary literal of \<^verbatim>\<open>assign_category\<close>, in its insertion order.\<close>

definition category_keywords :: "(string \<times> string list) list" where
  "category_keywords =
     [(''Electronics & Home'', [''electronic'', ''cable'', ''charger'', ''adapter'', ''battery'',
                                ''home'', ''kitchen'', ''appliance'', ''tool'']),
      (''Fragrances'', [''perfume'', ''cologne'', ''fragrance'', ''scent'', ''eau de'']),
      (''Beauty & Skincare'', [''beauty'', ''skincare'', ''cream'', ''lotion'', ''makeup'',
                               ''cosmetic'', ''serum'', ''face'']),
      (''Consumables & Health'', [''vitamin'', ''supplement'', ''health'', ''protein'',
                                  ''snack'', ''food'', ''drink'', ''consumable'']),
      (''Collectibles & Toys'', [''toy'', ''collectible'', ''figure'', ''game'', ''puzzle'', ''lego'']),
      (''Apparel & Footwear'', [''shirt'', ''pants'', ''shoes'', ''clothing'', ''apparel'',
                                ''jacket'', ''dress'', ''footwear'']),
      (''Drinkware'', [''mug'', ''cup'', ''bottle'', ''tumbler'', ''glass'', ''drinkware'']),
      (''Sports'', [''sport'', ''fitness'', ''exercise'', ''gym'', ''outdoor'', ''athletic'']),
      (''Media & Entertainment'', [''book'', ''dvd'', ''cd'', ''media'', ''movie'', ''music''])]"

text \<open>
  The loop over the dictionary's items: the first category one of whose keywords is in the
  lower-cased name is returned at once; after the loop the function returns Other.
\<close>

fun scan_categories :: "(string \<times> string list) list \<Rightarrow> string \<Rightarrow> string" where
  "scan_categories [] name_lower = ''Other''"
| "scan_categories ((category, keywords) # rest) name_lower =
     (if list_ex (\<lambda>kw. contains kw name_lower) keywords then category
      else scan_categories rest name_lower)"

definition assign_category :: "string \<Rightarrow> string" where
  "assign_category product_name = scan_categories category_keywords (str_lower product_name)"

text \<open>
  The specification's words: a keyword matches a name when it is a substring of the
  lower-cased name; the labels are the nine categories of the table and Other.
\<close>

definition keyword_match :: "string list \<Rightarrow> string \<Rightarrow> bool" where
  "keyword_match keywords product_name =
     (\<exists>kw \<in> set keywords. \<exists>before after. str_lower product_name = before @ kw @ after)"

definition category_labels :: "string list" where
  "category_labels = map fst category_keywords @ [''Other'']"

section \<open>Numeric cleaner\<close>

text \<open>
  A raw cell as \<^verbatim>\<open>clean_european_number\<close> receives it: None, a float, a Python
  integer, a bool (an instance of \<^verbatim>\<open>int\<close> in Python) or a string.
\<close>

datatype cell = CNone | CFloat pyfloat | CInt int | CBool bool | CStr string

text \<open>
  The range of a double. A value at or beyond \<open>2^1024 - 2^970\<close> in magnitude rounds
  past the largest finite double: a decimal string of such a value is parsed to an
  infinity, and \<^verbatim>\<open>float(n)\<close> of such an integer raises OverflowError.
\<close>

definition dbl_overflow :: rat where
  "dbl_overflow = 2 ^ 1024 - 2 ^ 970"

definition to_double :: "rat \<Rightarrow> pyfloat" where
  "to_double v =
     (if dbl_overflow \<le> v then PInf else if v \<le> - dbl_overflow then NInf else Fin v)"

definition float_of_int :: "int \<Rightarrow> py_error + pyfloat" where
  "float_of_int n =
     (if dbl_overflow \<le> \<bar>of_int n\<bar> then Inl OverflowError else Inr (Fin (of_int n)))"

text \<open>
  The double of a decimal string's value, as the string conversion rounds it at the two
  ends of the range: a magnitude of at most \<open>2^-1075\<close>, half the least positive
  double, is 0, and a magnitude at or beyond the overflow bound is an infinity.
\<close>

definition strtod_result :: "rat \<Rightarrow> pyfloat" where
  "strtod_result v = (if \<bar>v\<bar> \<le> 1 / 2 ^ 1075 then Fin 0 else to_double v)"

subsection \<open>Python's \<^verbatim>\<open>float(str)\<close>\<close>

text \<open>
  \<^verbatim>\<open>float\<close> of a string strips ASCII whitespace at both ends, accepts single
  underscores between digits, an optional sign, then \<^verbatim>\<open>inf\<close>, \<^verbatim>\<open>infinity\<close> or
  \<^verbatim>\<open>nan\<close> in any letter case, or a decimal number: digits with an optional point and
  an optional exponent, at least one digit before the exponent. The whole string must be
  used up; otherwise ValueError is raised, which is the result None here.
\<close>

definition is_space :: "char \<Rightarrow> bool" where
  "is_space c = (c \<in> set [CHR 0x09, CHR 0x0A, CHR 0x0B, CHR 0x0C, CHR 0x0D, CHR '' ''])"

definition is_digit :: "char \<Rightarrow> bool" where
  "is_digit c = (c \<in> set ''0123456789'')"

definition digit_val :: "char \<Rightarrow> nat" where
  "digit_val c = of_char c - 48"

definition nat_of_digits :: "string \<Rightarrow> nat" where
  "nat_of_digits ds = foldl (\<lambda>a c. 10 * a + digit_val c) 0 ds"

definition strip_ws :: "string \<Rightarrow> string" where
  "strip_ws s = rev (dropWhile is_space (rev (dropWhile is_space s)))"

fun underscores_ok :: "char \<Rightarrow> string \<Rightarrow> bool" where
  "underscores_ok prev [] = (prev \<noteq> CHR ''_'')"
| "underscores_ok prev (c # cs) =
     (if c = CHR ''_'' then is_digit prev \<and> underscores_ok c cs
      else if prev = CHR ''_'' then is_digit c \<and> underscores_ok c cs
      else underscores_ok c cs)"

fun parse_sign :: "string \<Rightarrow> bool \<times> string" where
  "parse_sign [] = (False, [])"
| "parse_sign (c # cs) =
     (if c = CHR ''-'' then (True, cs) else if c = CHR ''+'' then (False, cs) else (False, c # cs))"

definition parse_inf_or_nan :: "string \<Rightarrow> pyfloat option" where
  "parse_inf_or_nan s =
     (case parse_sign s of (neg, r) \<Rightarrow>
        if str_lower r = ''inf'' \<or> str_lower r = ''infinity'' then Some (if neg then NInf else PInf)
        else if str_lower r = ''nan'' then Some NaN
        else None)"

definition parse_exponent :: "string \<Rightarrow> int option" where
  "parse_exponent s =
     (case s of
        [] \<Rightarrow> Some 0
      | c # cs \<Rightarrow>
          if c = CHR ''e'' \<or> c = CHR ''E'' then
            (case parse_sign cs of (neg, ds) \<Rightarrow>
               if ds \<noteq> [] \<and> list_all is_digit ds
               then Some (if neg then - int (nat_of_digits ds) else int (nat_of_digits ds))
               else None)
          else None)"

definition scale10 :: "rat \<Rightarrow> int \<Rightarrow> rat" where
  "scale10 v e = (if 0 \<le> e then v * 10 ^ nat e else v / 10 ^ nat (- e))"

definition parse_decimal :: "string \<Rightarrow> rat option" where
  "parse_decimal s =
     (let ip = takeWhile is_digit s;
          r1 = dropWhile is_digit s;
          fp = (case r1 of [] \<Rightarrow> [] | c # cs \<Rightarrow> if c = CHR ''.'' then takeWhile is_digit cs else []);
          r2 = (case r1 of [] \<Rightarrow> [] | c # cs \<Rightarrow> if c = CHR ''.'' then dropWhile is_digit cs else r1)
      in if ip = [] \<and> fp = [] then None
         else (case parse_exponent r2 of
                 None \<Rightarrow> None
               | Some e \<Rightarrow> Some (scale10 (of_nat (nat_of_digits (ip @ fp))) (e - int (length fp)))))"

definition float_of_str :: "string \<Rightarrow> pyfloat option" where
  "float_of_str s =
     (let t = strip_ws s in
      if t = [] \<or> \<not> underscores_ok (CHR 0x00) t then None
      else
        (let u = filter (\<lambda>c. c \<noteq> CHR ''_'') t in
         case parse_inf_or_nan u of
           Some x \<Rightarrow> Some x
         | None \<Rightarrow>
             (case parse_sign u of (neg, r) \<Rightarrow>
                (case parse_decimal r of
                   None \<Rightarrow> None
                 | Some v \<Rightarrow> Some (strtod_result (if neg then - v else v))))))"

subsection \<open>\<^verbatim>\<open>clean_european_number\<close>\<close>

text \<open>\<^verbatim>\<open>pd.isna\<close> of a scalar cell, and \<^verbatim>\<open>str.replace\<close> of a one-character pattern.\<close>

definition isna :: "cell \<Rightarrow> bool" where
  "isna v = (v = CNone \<or> v = CFloat NaN)"

definition replace_char :: "char \<Rightarrow> string \<Rightarrow> string \<Rightarrow> string" where
  "replace_char old new s = concat (map (\<lambda>c. if c = old then new else [c]) s)"

definition clean_european_number :: "cell \<Rightarrow> py_error + pyfloat" where
  "clean_european_number v =
     (if isna v then Inr (Fin 0)
      else
        (case v of
           CNone \<Rightarrow> Inr (Fin 0)
         | CFloat x \<Rightarrow> Inr x
         | CInt n \<Rightarrow> float_of_int n
         | CBool b \<Rightarrow> Inr (Fin (if b then 1 else 0))
         | CStr s \<Rightarrow>
             (let cleaned = replace_char (CHR '','') ''.'' (replace_char (CHR '' '') [] s) in
              case float_of_str cleaned of
                Some x \<Rightarrow> Inr x
              | None \<Rightarrow> Inr (Fin 0))))"

text \<open>
  The specification's words: the number a digit string denotes, position by position.
\<close>

definition decimal_value :: "string \<Rightarrow> nat" where
  "decimal_value ds = (\<Sum>i < length ds. digit_val (ds ! i) * 10 ^ (length ds - 1 - i))"

text \<open>
  A cell whose float exists: every cell but an integer at or beyond the overflow bound.
\<close>

definition representable :: "cell \<Rightarrow> bool" where
  "representable v = (case v of CInt n \<Rightarrow> \<bar>of_int n :: rat\<bar> < dbl_overflow | _ \<Rightarrow> True)"

section \<open>SKU table\<close>

subsection \<open>Float arithmetic of the derived columns\<close>

text \<open>
  The derived columns are computed on whole columns by numpy: \<^verbatim>\<open>/\<close> and \<^verbatim>\<open>*\<close> are
  IEEE operations that return an infinity or NaN where Python's scalar division would
  raise, and \<^verbatim>\<open>np.where(c, a, 0)\<close> selects per row after both sides are computed.
  A finite result is kept exact, within the range of a double.
\<close>

fun py_abs :: "pyfloat \<Rightarrow> pyfloat" where
  "py_abs (Fin a) = Fin \<bar>a\<bar>"
| "py_abs PInf = PInf"
| "py_abs NInf = PInf"
| "py_abs NaN = NaN"

fun py_div :: "pyfloat \<Rightarrow> pyfloat \<Rightarrow> pyfloat" where
  "py_div (Fin a) (Fin b) =
     (if b = 0 then (if a = 0 then NaN else if 0 < a then PInf else NInf)
      else to_double (a / b))"
| "py_div (Fin a) PInf = Fin 0"
| "py_div (Fin a) NInf = Fin 0"
| "py_div PInf (Fin b) = (if b < 0 then NInf else PInf)"
| "py_div NInf (Fin b) = (if b < 0 then PInf else NInf)"
| "py_div PInf PInf = NaN"
| "py_div PInf NInf = NaN"
| "py_div NInf PInf = NaN"
| "py_div NInf NInf = NaN"
| "py_div NaN y = NaN"
| "py_div x NaN = NaN"

fun py_mul :: "pyfloat \<Rightarrow> pyfloat \<Rightarrow> pyfloat" where
  "py_mul (Fin a) (Fin b) = to_double (a * b)"
| "py_mul (Fin a) PInf = (if a = 0 then NaN else if 0 < a then PInf else NInf)"
| "py_mul (Fin a) NInf = (if a = 0 then NaN else if 0 < a then NInf else PInf)"
| "py_mul PInf (Fin b) = (if b = 0 then NaN else if 0 < b then PInf else NInf)"
| "py_mul NInf (Fin b) = (if b = 0 then NaN else if 0 < b then NInf else PInf)"
| "py_mul PInf PInf = PInf"
| "py_mul PInf NInf = NInf"
| "py_mul NInf PInf = NInf"
| "py_mul NInf NInf = PInf"
| "py_mul NaN y = NaN"
| "py_mul x NaN = NaN"

subsection \<open>\<^verbatim>\<open>str(i + 1).zfill(4)\<close>\<close>

function str_of_nat :: "nat \<Rightarrow> string" where
  "str_of_nat n =
     (if n < 10 then [''0123456789'' ! n]
      else str_of_nat (n div 10) @ [''0123456789'' ! (n mod 10)])"
  by pat_completeness auto
termination
  by (relation "measure id") auto

definition zfill :: "nat \<Rightarrow> string \<Rightarrow> string" where
  "zfill width s =
     (case s of
        [] \<Rightarrow> replicate width (CHR ''0'')
      | c # cs \<Rightarrow>
          if c = CHR ''+'' \<or> c = CHR ''-'' then c # replicate (width - length s) (CHR ''0'') @ cs
          else replicate (width - length s) (CHR ''0'') @ s)"

definition sku_label :: "nat \<Rightarrow> string" where
  "sku_label i = ''SKU-'' @ zfill 4 (str_of_nat (i + 1))"

subsection \<open>\<^verbatim>\<open>process_sku_data\<close>\<close>

text \<open>
  A row of the raw table: the four columns that are cleaned hold raw cells; Units_Sold and
  Refunds are used as read and are numeric columns here. The file reading and writing of
  the function are not modelled. The columns are computed row by row, which gives the
  same table as the column-wise statements of the source.
\<close>

record raw_sku =
  raw_SKU :: string
  raw_Revenue :: cell
  raw_COGS :: cell
  raw_Amazon_Fees :: cell
  raw_Net_Profit :: cell
  raw_Units_Sold :: pyfloat
  raw_Refunds :: pyfloat

text \<open>
  The table after the derived columns are added, and the final table, which has the two
  columns that are added last as well.
\<close>

record metrics_row =
  SKU :: string
  Revenue :: pyfloat
  COGS :: pyfloat
  Amazon_Fees :: pyfloat
  Net_Profit :: pyfloat
  Units_Sold :: pyfloat
  Refunds :: pyfloat
  Margin_Pct :: pyfloat
  ROI_Pct :: pyfloat
  Refund_Rate_Pct :: pyfloat
  Avg_Sale_Price :: pyfloat
  Profit_Per_Unit :: pyfloat

record sku_row = metrics_row +
  Health_Score :: int
  Performance_Tier :: string

definition bind_err :: "'e + 'a \<Rightarrow> ('a \<Rightarrow> 'e + 'b) \<Rightarrow> 'e + 'b" where
  "bind_err m f = (case m of Inl e \<Rightarrow> Inl e | Inr x \<Rightarrow> f x)"

fun collect :: "('e + 'a) list \<Rightarrow> 'e + 'a list" where
  "collect [] = Inr []"
| "collect (m # ms) = bind_err m (\<lambda>x. bind_err (collect ms) (\<lambda>xs. Inr (x # xs)))"

text \<open>\<^verbatim>\<open>np.where(c, a, 0)\<close> at one row.\<close>

definition np_where :: "bool \<Rightarrow> pyfloat \<Rightarrow> pyfloat" where
  "np_where c a = (if c then a else Fin 0)"

definition derived_metrics ::
  "string \<Rightarrow> pyfloat \<Rightarrow> pyfloat \<Rightarrow> pyfloat \<Rightarrow> pyfloat \<Rightarrow> pyfloat \<Rightarrow> pyfloat \<Rightarrow> metrics_row" where
  "derived_metrics sku revenue cogs fees net_profit units refunds =
     \<lparr>SKU = sku, Revenue = revenue, COGS = cogs, Amazon_Fees = fees,
      Net_Profit = net_profit, Units_Sold = units, Refunds = refunds,
      Margin_Pct = np_where (py_gt revenue 0) (py_mul (py_div net_profit revenue) (Fin 100)),
      ROI_Pct = np_where (py_gt (py_abs cogs) 0)
                  (py_mul (py_div net_profit (py_abs cogs)) (Fin 100)),
      Refund_Rate_Pct = np_where (py_gt units 0) (py_mul (py_div refunds units) (Fin 100)),
      Avg_Sale_Price = np_where (py_gt units 0) (py_div revenue units),
      Profit_Per_Unit = np_where (py_gt units 0) (py_div net_profit units)\<rparr>"

text \<open>The row as \<^verbatim>\<open>df.apply(calculate_health_score, axis=1)\<close> hands it to the scorer.\<close>

definition series_of :: "metrics_row \<Rightarrow> row" where
  "series_of m =
     [''SKU'' \<mapsto> Str (SKU m), ''Revenue'' \<mapsto> Num (Revenue m), ''COGS'' \<mapsto> Num (COGS m),
      ''Amazon_Fees'' \<mapsto> Num (Amazon_Fees m), ''Net_Profit'' \<mapsto> Num (Net_Profit m),
      ''Units_Sold'' \<mapsto> Num (Units_Sold m), ''Refunds'' \<mapsto> Num (Refunds m),
      ''Margin_Pct'' \<mapsto> Num (Margin_Pct m), ''ROI_Pct'' \<mapsto> Num (ROI_Pct m),
      ''Refund_Rate_Pct'' \<mapsto> Num (Refund_Rate_Pct m),
      ''Avg_Sale_Price'' \<mapsto> Num (Avg_Sale_Price m),
      ''Profit_Per_Unit'' \<mapsto> Num (Profit_Per_Unit m)]"

definition scored :: "metrics_row \<Rightarrow> int \<Rightarrow> sku_row" where
  "scored m score =
     metrics_row.extend m (sku_row.fields score (assign_performance_tier score))"

definition derive_row :: "raw_sku \<Rightarrow> py_error + sku_row" where
  "derive_row r =
     bind_err (clean_european_number (raw_Revenue r)) (\<lambda>revenue.
     bind_err (clean_european_number (raw_COGS r)) (\<lambda>cogs.
     bind_err (clean_european_number (raw_Amazon_Fees r)) (\<lambda>fees.
     bind_err (clean_european_number (raw_Net_Profit r)) (\<lambda>net_profit.
       let m = derived_metrics (raw_SKU r) revenue cogs fees net_profit
                 (raw_Units_Sold r) (raw_Refunds r)
       in bind_err (calculate_health_score (series_of m)) (\<lambda>score. Inr (scored m score))))))"

definition process_sku_data :: "raw_sku list \<Rightarrow> py_error + sku_row list" where
  "process_sku_data df =
     bind_err (collect (map derive_row df)) (\<lambda>rows.
       Inr (map (\<lambda>(i, r). r\<lparr>SKU := sku_label i\<rparr>) (enumerate 0 rows)))"

text \<open>Rows all of whose cleaned cells have a float, and two example tables.\<close>

definition cells_representable :: "raw_sku \<Rightarrow> bool" where
  "cells_representable r =
     (representable (raw_Revenue r) \<and> representable (raw_COGS r) \<and>
      representable (raw_Amazon_Fees r) \<and> representable (raw_Net_Profit r))"

definition sample_sku :: "raw_sku" where
  "sample_sku =
     \<lparr>raw_SKU = ''B00X'', raw_Revenue = CStr ''1 200,50'', raw_COGS = CFloat (Fin (- 400)),
      raw_Amazon_Fees = CInt (- 180), raw_Net_Profit = CFloat (Fin 200),
      raw_Units_Sold = Fin 40, raw_Refunds = Fin 2\<rparr>"

definition idle_sku :: "raw_sku" where
  "idle_sku =
     \<lparr>raw_SKU = ''B00Y'', raw_Revenue = CFloat (Fin 0), raw_COGS = CNone,
      raw_Amazon_Fees = CFloat (Fin 0), raw_Net_Profit = CFloat (Fin (- 5)),
      raw_Units_Sold = Fin 0, raw_Refunds = Fin 0\<rparr>"


definition padded_decimal :: "nat \<Rightarrow> nat \<Rightarrow> string \<Rightarrow> bool" where
  "padded_decimal width n ds =
     (list_all is_digit ds \<and> decimal_value ds = n \<and> width \<le> length ds \<and>
      (width < length ds \<longrightarrow> hd ds \<noteq> CHR ''0''))"

definition sample_out :: "sku_row list" where
  "sample_out =
     [\<lparr>SKU = ''SKU-0001'', Revenue = Fin (2401 / 2), COGS = Fin (- 400), Amazon_Fees = Fin (- 180),
       Net_Profit = Fin 200, Units_Sold = Fin 40, Refunds = Fin 2,
       Margin_Pct = Fin (40000 / 2401), ROI_Pct = Fin 50, Refund_Rate_Pct = Fin 5,
       Avg_Sale_Price = Fin (2401 / 80), Profit_Per_Unit = Fin 5,
       Health_Score = 75, Performance_Tier = ''Strong''\<rparr>,
      \<lparr>SKU = ''SKU-0002'', Revenue = Fin 0, COGS = Fin 0, Amazon_Fees = Fin 0,
       Net_Profit = Fin (- 5), Units_Sold = Fin 0, Refunds = Fin 0,
       Margin_Pct = Fin 0, ROI_Pct = Fin 0, Refund_Rate_Pct = Fin 0,
       Avg_Sale_Price = Fin 0, Profit_Per_Unit = Fin 0,
       Health_Score = 20, Performance_Tier = ''Weak''\<rparr>]"

section \<open>Daily table\<close>

text \<open>
  A cell of a numeric column of the daily table: a finite number, or None for NaN, which
  is how a missing value is read. Infinite cells are outside this model. The columns are
  used as read from the file (the daily path does not clean them).
\<close>

type_synonym daily_num = "rat option"

subsection \<open>\<^verbatim>\<open>rolling(window, min_periods).mean()\<close>\<close>

text \<open>
  The rolling mean of pandas is computed in one pass over the column. The state holds the
  number of observations in the window and their sum. At position \<open>i\<close> the value that
  leaves the window (position \<open>i - window\<close>, when there is one) is removed, the value at
  \<open>i\<close> is added, and the mean is the sum over the number of observations when that number
  reaches \<open>min_periods\<close> and is not 0, NaN otherwise. A NaN value is neither added nor
  removed: it is not an observation.
\<close>

record roll_state =
  nobs :: nat
  sum_x :: rat

definition add_mean :: "daily_num \<Rightarrow> roll_state \<Rightarrow> roll_state" where
  "add_mean v st =
     (case v of None \<Rightarrow> st | Some x \<Rightarrow> \<lparr>nobs = nobs st + 1, sum_x = sum_x st + x\<rparr>)"

definition remove_mean :: "daily_num \<Rightarrow> roll_state \<Rightarrow> roll_state" where
  "remove_mean v st =
     (case v of None \<Rightarrow> st | Some x \<Rightarrow> \<lparr>nobs = nobs st - 1, sum_x = sum_x st - x\<rparr>)"

definition calc_mean :: "nat \<Rightarrow> roll_state \<Rightarrow> daily_num" where
  "calc_mean minp st =
     (if minp \<le> nobs st \<and> 0 < nobs st then Some (sum_x st / of_nat (nobs st)) else None)"

fun roll_loop :: "nat \<Rightarrow> nat \<Rightarrow> daily_num list \<Rightarrow> nat list \<Rightarrow> roll_state \<Rightarrow> daily_num list" where
  "roll_loop w minp xs [] st = []"
| "roll_loop w minp xs (i # is) st =
     (let st1 = (if w \<le> i then remove_mean (xs ! (i - w)) st else st);
          st2 = add_mean (xs ! i) st1
      in calc_mean minp st2 # roll_loop w minp xs is st2)"

definition rolling_mean :: "nat \<Rightarrow> nat \<Rightarrow> daily_num list \<Rightarrow> daily_num list" where
  "rolling_mean w minp xs = roll_loop w minp xs [0..<length xs] \<lparr>nobs = 0, sum_x = 0\<rparr>"

subsection \<open>\<^verbatim>\<open>process_daily_data\<close>\<close>

text \<open>
  A row of the raw daily table and of the processed one. \<^verbatim>\<open>pd.to_datetime\<close> is a
  parameter of the model: it gives the timestamp of a date text, or None where pandas
  raises. The rows are sorted by timestamp and the three moving averages are computed on
  the sorted columns. The order pandas gives to rows of equal date is not specified; the
  model takes the stable order. The calendar columns and the two ratio columns that the
  function adds afterwards, and its file reading and writing, are not modelled.
\<close>

record raw_daily =
  raw_Date :: string
  raw_Net_Profit_d :: daily_num
  raw_Units_Sold_d :: daily_num
  raw_Revenue_d :: daily_num

record daily_row =
  Date :: int
  Net_Profit_d :: daily_num
  Units_Sold_d :: daily_num
  Revenue_d :: daily_num
  Profit_7day_MA :: daily_num
  Units_7day_MA :: daily_num
  Revenue_7day_MA :: daily_num

definition with_averages ::
  "(int \<times> raw_daily) list \<Rightarrow> daily_num list \<Rightarrow> daily_num list \<Rightarrow> daily_num list \<Rightarrow> nat \<Rightarrow> daily_row" where
  "with_averages rows pm um rm i =
     \<lparr>Date = fst (rows ! i),
      Net_Profit_d = raw_Net_Profit_d (snd (rows ! i)),
      Units_Sold_d = raw_Units_Sold_d (snd (rows ! i)),
      Revenue_d = raw_Revenue_d (snd (rows ! i)),
      Profit_7day_MA = pm ! i, Units_7day_MA = um ! i, Revenue_7day_MA = rm ! i\<rparr>"

definition process_daily_data :: "(string \<Rightarrow> int option) \<Rightarrow> raw_daily list \<Rightarrow> py_error + daily_row list" where
  "process_daily_data to_datetime df =
     (case those (map (\<lambda>r. to_datetime (raw_Date r)) df) of
        None \<Rightarrow> Inl DateParseError
      | Some dates \<Rightarrow>
          (let rows = sort_key fst (zip dates df);
               pm = rolling_mean 7 1 (map (\<lambda>p. raw_Net_Profit_d (snd p)) rows);
               um = rolling_mean 7 1 (map (\<lambda>p. raw_Units_Sold_d (snd p)) rows);
               rm = rolling_mean 7 1 (map (\<lambda>p. raw_Revenue_d (snd p)) rows)
           in Inr (map (with_averages rows pm um rm) [0..<length rows])))"

text \<open>
  The specification's words: the window of position \<open>i\<close> holds the positions
  \<open>max(0, i - 6)\<close> through \<open>i\<close>; the mean as the claim states it is the arithmetic mean
  over all records of the window, which in float arithmetic is NaN as soon as one of them
  is NaN; the mean pandas computes is over the values that are present.
\<close>

definition window7 :: "daily_num list \<Rightarrow> nat \<Rightarrow> daily_num list" where
  "window7 xs i = map (\<lambda>j. xs ! j) [i - 6..<Suc i]"

definition present :: "daily_num list \<Rightarrow> rat list" where
  "present vs = concat (map (\<lambda>v. case v of None \<Rightarrow> [] | Some x \<Rightarrow> [x]) vs)"

definition mean_of_records :: "daily_num list \<Rightarrow> daily_num" where
  "mean_of_records vs =
     (if list_ex (\<lambda>v. v = None) vs \<or> vs = [] then None
      else Some (sum_list (present vs) / of_nat (length vs)))"

definition mean_of_present :: "daily_num list \<Rightarrow> daily_num" where
  "mean_of_present vs =
     (if present vs = [] then None
      else Some (sum_list (present vs) / of_nat (length (present vs))))"

text \<open>A toy date parser (a day count in decimal digits) and a three-day table with a gap.\<close>

definition day_number :: "string \<Rightarrow> int option" where
  "day_number s = (if s \<noteq> [] \<and> list_all is_digit s then Some (int (nat_of_digits s)) else None)"

definition gap_days :: "raw_daily list" where
  "gap_days =
     [\<lparr>raw_Date = ''3'', raw_Net_Profit_d = Some 3, raw_Units_Sold_d = Some 30, raw_Revenue_d = Some 300\<rparr>,
      \<lparr>raw_Date = ''1'', raw_Net_Profit_d = Some 1, raw_Units_Sold_d = Some 10, raw_Revenue_d = Some 100\<rparr>,
      \<lparr>raw_Date = ''2'', raw_Net_Profit_d = None, raw_Units_Sold_d = Some 20, raw_Revenue_d = Some 200\<rparr>]"

definition gap_out :: "daily_row list" where
  "gap_out =
     [\<lparr>Date = 1, Net_Profit_d = Some 1, Units_Sold_d = Some 10, Revenue_d = Some 100,
       Profit_7day_MA = Some 1, Units_7day_MA = Some 10, Revenue_7day_MA = Some 100\<rparr>,
      \<lparr>Date = 2, Net_Profit_d = None, Units_Sold_d = Some 20, Revenue_d = Some 200,
       Profit_7day_MA = Some 1, Units_7day_MA = Some 15, Revenue_7day_MA = Some 150\<rparr>,
      \<lparr>Date = 3, Net_Profit_d = Some 3, Units_Sold_d = Some 30, Revenue_d = Some 300,
       Profit_7day_MA = Some 2, Units_7day_MA = Some 20, Revenue_7day_MA = Some 200\<rparr>]"

text \<open>The state the one-pass computation holds for a window: its invariant.\<close>

definition window_state :: "daily_num list \<Rightarrow> roll_state" where
  "window_state vs = \<lparr>nobs = length (present vs), sum_x = sum_list (present vs)\<rparr>"

section \<open>Properties of the scorer\<close>

lemma profit_step_adj: "profit_step s x = s + profit_adj x"
  by (simp add: profit_step_def profit_adj_def adjustment_def)

lemma units_step_adj: "units_step s x = s + velocity_adj x"
  by (simp add: units_step_def velocity_adj_def adjustment_def)

lemma roi_step_adj: "roi_step s x = s + roi_adj x"
  by (simp add: roi_step_def roi_adj_def adjustment_def)

lemma margin_step_adj: "margin_step s x = s + margin_adj x"
  by (simp add: margin_step_def margin_adj_def adjustment_def)

lemma profit_adj_range: "- 15 \<le> profit_adj x \<and> profit_adj x \<le> 20"
  by (simp add: profit_adj_def adjustment_def)

lemma velocity_adj_range: "- 10 \<le> velocity_adj x \<and> velocity_adj x \<le> 15"
  by (simp add: velocity_adj_def adjustment_def)

lemma roi_adj_range: "- 10 \<le> roi_adj x \<and> roi_adj x \<le> 10"
  by (simp add: roi_adj_def adjustment_def)

lemma margin_adj_range: "- 5 \<le> margin_adj x \<and> margin_adj x \<le> 5"
  by (simp add: margin_adj_def adjustment_def)

lemma numeric_fieldD: "numeric_field r k \<Longrightarrow> row_get r k = Num (field_num r k)"
  by (simp add: numeric_field_def field_num_def split: val.splits)

lemma score_numeric:
  assumes "numeric_field r ''Net_Profit''" "numeric_field r ''Units_Sold''"
    "numeric_field r ''ROI_Pct''" "numeric_field r ''Margin_Pct''"
  shows "calculate_health_score r =
     Inr (max 0 (min 100 (50 + profit_adj (field_num r ''Net_Profit'')
       + velocity_adj (field_num r ''Units_Sold'') + roi_adj (field_num r ''ROI_Pct'')
       + margin_adj (field_num r ''Margin_Pct''))))"
  using assms
  by (simp add: calculate_health_score_def numeric_fieldD profit_step_adj units_step_adj
      roi_step_adj margin_step_adj)

lemma score_sum_range:
  "10 \<le> 50 + profit_adj a + velocity_adj b + roi_adj c + margin_adj d \<and>
   50 + profit_adj a + velocity_adj b + roi_adj c + margin_adj d \<le> 100"
  using profit_adj_range [of a] velocity_adj_range [of b] roi_adj_range [of c]
    margin_adj_range [of d]
  by linarith

lemma example_row_numeric:
  "numeric_field example_row ''Net_Profit''" "numeric_field example_row ''Units_Sold''"
  "numeric_field example_row ''ROI_Pct''" "numeric_field example_row ''Margin_Pct''"
  by (simp_all add: numeric_field_def row_get_def example_row_def)

lemma worst_row_numeric:
  "numeric_field worst_row ''Net_Profit''" "numeric_field worst_row ''Units_Sold''"
  "numeric_field worst_row ''ROI_Pct''" "numeric_field worst_row ''Margin_Pct''"
  by (simp_all add: numeric_field_def row_get_def worst_row_def)

lemma example_row_score: "calculate_health_score example_row = Inr 80"
  by (simp add: calculate_health_score_def row_get_def example_row_def profit_step_def
      units_step_def roi_step_def margin_step_def)

lemma worst_row_score: "calculate_health_score worst_row = Inr 10"
  by (simp add: calculate_health_score_def row_get_def worst_row_def profit_step_def
      units_step_def roi_step_def margin_step_def)

text \<open>
  Claim C2. For every row whose four score fields are numbers (finite or not, present or
  defaulted), \<^verbatim>\<open>calculate_health_score\<close> returns an integer between 0 and 100.
\<close>

theorem health_score_in_0_100:
  assumes "numeric_field r ''Net_Profit''" "numeric_field r ''Units_Sold''"
    "numeric_field r ''ROI_Pct''" "numeric_field r ''Margin_Pct''"
  shows "\<exists>s. calculate_health_score r = Inr s \<and> 0 \<le> s \<and> s \<le> 100"
  using score_numeric [OF assms] by simp

theorem health_score_in_0_100_witness:
  "numeric_field example_row ''Net_Profit'' \<and> numeric_field example_row ''Units_Sold'' \<and>
   numeric_field example_row ''ROI_Pct'' \<and> numeric_field example_row ''Margin_Pct'' \<and>
   (\<exists>s. calculate_health_score example_row = Inr s \<and> 0 \<le> s \<and> s \<le> 100)"
  using health_score_in_0_100 [OF example_row_numeric] example_row_numeric by simp

lemma clamp_score_max_min: "clamp_score s = max 0 (min 100 s)"
  by (simp add: clamp_score_def)

lemma score_agree:
  assumes "list_all (\<lambda>k. r k = r' k) score_fields"
  shows "calculate_health_score r = calculate_health_score r'"
proof -
  have "row_get r ''Net_Profit'' = row_get r' ''Net_Profit''"
    "row_get r ''Units_Sold'' = row_get r' ''Units_Sold''"
    "row_get r ''ROI_Pct'' = row_get r' ''ROI_Pct''"
    "row_get r ''Margin_Pct'' = row_get r' ''Margin_Pct''"
    using assms by (simp_all add: score_fields_def row_get_def)
  then show ?thesis
    unfolding calculate_health_score_def by (simp only:)
qed

lemma score_content:
  assumes "r ''Net_Profit'' = Some (Num a) \<or> r ''Net_Profit'' = None \<and> a = Fin 0"
    and "r ''Units_Sold'' = Some (Num b) \<or> r ''Units_Sold'' = None \<and> b = Fin 0"
    and "r ''ROI_Pct'' = Some (Num c) \<or> r ''ROI_Pct'' = None \<and> c = Fin 0"
    and "r ''Margin_Pct'' = Some (Num d) \<or> r ''Margin_Pct'' = None \<and> d = Fin 0"
  shows "calculate_health_score r =
     Inr (clamp_score (50 + profit_adj a + velocity_adj b + roi_adj c + margin_adj d))"
proof -
  have "row_get r ''Net_Profit'' = Num a" "row_get r ''Units_Sold'' = Num b"
    "row_get r ''ROI_Pct'' = Num c" "row_get r ''Margin_Pct'' = Num d"
    using assms by (auto simp: row_get_def)
  then show ?thesis
    by (simp add: calculate_health_score_def profit_step_adj units_step_adj roi_step_adj
        margin_step_adj clamp_score_max_min)
qed

lemma empty_row_score: "calculate_health_score Map.empty = Inr 35"
  by (simp add: calculate_health_score_def row_get_def profit_step_def units_step_def
      roi_step_def margin_step_def)

lemma adjustment_values:
  "profit_adj (Fin 501) = 20 \<and> profit_adj (Fin 500) = 15 \<and> profit_adj (Fin 201) = 15 \<and>
   profit_adj (Fin 200) = 10 \<and> profit_adj (Fin 101) = 10 \<and> profit_adj (Fin 100) = 5 \<and>
   profit_adj (Fin 51) = 5 \<and> profit_adj (Fin 50) = 0 \<and> profit_adj (Fin 0) = 0 \<and>
   profit_adj (Fin (- 1)) = - 15 \<and>
   velocity_adj (Fin 51) = 15 \<and> velocity_adj (Fin 50) = 10 \<and> velocity_adj (Fin 26) = 10 \<and>
   velocity_adj (Fin 25) = 5 \<and> velocity_adj (Fin 11) = 5 \<and> velocity_adj (Fin 10) = 0 \<and>
   velocity_adj (Fin 0) = - 10 \<and>
   roi_adj (Fin 51) = 10 \<and> roi_adj (Fin 50) = 5 \<and> roi_adj (Fin 26) = 5 \<and>
   roi_adj (Fin 25) = 0 \<and> roi_adj (Fin 0) = 0 \<and> roi_adj (Fin (- 1)) = - 10 \<and>
   margin_adj (Fin 21) = 5 \<and> margin_adj (Fin 20) = 0 \<and> margin_adj (Fin 5) = 0 \<and>
   margin_adj (Fin 4) = - 5 \<and>
   profit_adj NaN = 0 \<and> velocity_adj NaN = 0 \<and> roi_adj NaN = 0 \<and> margin_adj NaN = 0"
  by (simp add: profit_adj_def velocity_adj_def roi_adj_def margin_adj_def adjustment_def)

text \<open>
  Claim C3. The score is a function of the row alone (the model is a HOL function, so it is
  deterministic and has no effect). When the fields Net_Profit, Units_Sold, ROI_Pct and
  Margin_Pct of the row hold the numbers \<open>a\<close>, \<open>b\<close>, \<open>c\<close> and \<open>d\<close> (an absent field
  counts as 0), the score is the base score 50 plus the four table adjustments of
  \<open>a\<close>, \<open>b\<close>, \<open>c\<close> and \<open>d\<close>, clamped to [0, 100]; two rows that agree on these four
  fields get the same result, whatever their other fields hold. The example row scores 80,
  the empty row 35, and the adjustment tables take the values of the source at and next
  to every threshold.
\<close>

theorem health_score_formula:
  "((r ''Net_Profit'' = Some (Num a) \<or> r ''Net_Profit'' = None \<and> a = Fin 0) \<and>
    (r ''Units_Sold'' = Some (Num b) \<or> r ''Units_Sold'' = None \<and> b = Fin 0) \<and>
    (r ''ROI_Pct'' = Some (Num c) \<or> r ''ROI_Pct'' = None \<and> c = Fin 0) \<and>
    (r ''Margin_Pct'' = Some (Num d) \<or> r ''Margin_Pct'' = None \<and> d = Fin 0) \<longrightarrow>
    calculate_health_score r =
      Inr (clamp_score (50 + profit_adj a + velocity_adj b + roi_adj c + margin_adj d))) \<and>
   (numeric_field r ''Net_Profit'' \<and> numeric_field r ''Units_Sold'' \<and>
    numeric_field r ''ROI_Pct'' \<and> numeric_field r ''Margin_Pct'' \<longrightarrow>
    calculate_health_score r =
      Inr (clamp_score (50 + profit_adj (field_num r ''Net_Profit'')
        + velocity_adj (field_num r ''Units_Sold'') + roi_adj (field_num r ''ROI_Pct'')
        + margin_adj (field_num r ''Margin_Pct'')))) \<and>
   (list_all (\<lambda>k. r k = r' k) score_fields \<longrightarrow>
    calculate_health_score r = calculate_health_score r') \<and>
   calculate_health_score example_row = Inr 80 \<and>
   calculate_health_score Map.empty = Inr 35 \<and>
   profit_adj (Fin 501) = 20 \<and> profit_adj (Fin 500) = 15 \<and> profit_adj (Fin 201) = 15 \<and>
   profit_adj (Fin 200) = 10 \<and> profit_adj (Fin 101) = 10 \<and> profit_adj (Fin 100) = 5 \<and>
   profit_adj (Fin 51) = 5 \<and> profit_adj (Fin 50) = 0 \<and> profit_adj (Fin 0) = 0 \<and>
   profit_adj (Fin (- 1)) = - 15 \<and>
   velocity_adj (Fin 51) = 15 \<and> velocity_adj (Fin 50) = 10 \<and> velocity_adj (Fin 26) = 10 \<and>
   velocity_adj (Fin 25) = 5 \<and> velocity_adj (Fin 11) = 5 \<and> velocity_adj (Fin 10) = 0 \<and>
   velocity_adj (Fin 0) = - 10 \<and>
   roi_adj (Fin 51) = 10 \<and> roi_adj (Fin 50) = 5 \<and> roi_adj (Fin 26) = 5 \<and>
   roi_adj (Fin 25) = 0 \<and> roi_adj (Fin 0) = 0 \<and> roi_adj (Fin (- 1)) = - 10 \<and>
   margin_adj (Fin 21) = 5 \<and> margin_adj (Fin 20) = 0 \<and> margin_adj (Fin 5) = 0 \<and>
   margin_adj (Fin 4) = - 5 \<and>
   profit_adj NaN = 0 \<and> velocity_adj NaN = 0 \<and> roi_adj NaN = 0 \<and> margin_adj NaN = 0"
proof -
  have first: "calculate_health_score r =
      Inr (clamp_score (50 + profit_adj a + velocity_adj b + roi_adj c + margin_adj d))"
    if "(r ''Net_Profit'' = Some (Num a) \<or> r ''Net_Profit'' = None \<and> a = Fin 0) \<and>
      (r ''Units_Sold'' = Some (Num b) \<or> r ''Units_Sold'' = None \<and> b = Fin 0) \<and>
      (r ''ROI_Pct'' = Some (Num c) \<or> r ''ROI_Pct'' = None \<and> c = Fin 0) \<and>
      (r ''Margin_Pct'' = Some (Num d) \<or> r ''Margin_Pct'' = None \<and> d = Fin 0)"
    using that by (intro score_content) simp_all
  have second: "calculate_health_score r =
      Inr (clamp_score (50 + profit_adj (field_num r ''Net_Profit'')
        + velocity_adj (field_num r ''Units_Sold'') + roi_adj (field_num r ''ROI_Pct'')
        + margin_adj (field_num r ''Margin_Pct'')))"
    if "numeric_field r ''Net_Profit'' \<and> numeric_field r ''Units_Sold'' \<and>
      numeric_field r ''ROI_Pct'' \<and> numeric_field r ''Margin_Pct''"
    using that score_numeric [of r] by (simp only: clamp_score_max_min)
  show ?thesis
    using first second score_agree [of r r'] example_row_score empty_row_score
      adjustment_values
    by (intro conjI impI) (simp_all only:)
qed

theorem health_score_formula_witness:
  "example_row ''Net_Profit'' = Some (Num (Fin 250)) \<and>
   example_row ''Units_Sold'' = Some (Num (Fin 30)) \<and>
   example_row ''ROI_Pct'' = Some (Num (Fin 40)) \<and>
   example_row ''Margin_Pct'' = Some (Num (Fin (25 / 2))) \<and>
   calculate_health_score example_row =
     Inr (clamp_score (50 + profit_adj (Fin 250) + velocity_adj (Fin 30) + roi_adj (Fin 40)
       + margin_adj (Fin (25 / 2)))) \<and>
   clamp_score (50 + profit_adj (Fin 250) + velocity_adj (Fin 30) + roi_adj (Fin 40)
       + margin_adj (Fin (25 / 2))) = 80 \<and>
   (Map.empty :: row) ''Net_Profit'' = None \<and>
   calculate_health_score Map.empty =
     Inr (clamp_score (50 + profit_adj (Fin 0) + velocity_adj (Fin 0) + roi_adj (Fin 0)
       + margin_adj (Fin 0))) \<and>
   clamp_score (50 + profit_adj (Fin 0) + velocity_adj (Fin 0) + roi_adj (Fin 0)
       + margin_adj (Fin 0)) = 35 \<and>
   numeric_field example_row ''Net_Profit'' \<and> numeric_field example_row ''Units_Sold'' \<and>
   numeric_field example_row ''ROI_Pct'' \<and> numeric_field example_row ''Margin_Pct'' \<and>
   list_all (\<lambda>k. example_row k = (example_row(''SKU'' \<mapsto> Str ''SKU-0001'')) k) score_fields \<and>
   calculate_health_score example_row =
     calculate_health_score (example_row(''SKU'' \<mapsto> Str ''SKU-0001''))"
proof -
  have content: "example_row ''Net_Profit'' = Some (Num (Fin 250)) \<and>
      example_row ''Units_Sold'' = Some (Num (Fin 30)) \<and>
      example_row ''ROI_Pct'' = Some (Num (Fin 40)) \<and>
      example_row ''Margin_Pct'' = Some (Num (Fin (25 / 2)))"
    by (simp add: example_row_def)
  have absent: "(Map.empty :: row) ''Net_Profit'' = None \<and> (Map.empty :: row) ''Units_Sold'' = None \<and>
      (Map.empty :: row) ''ROI_Pct'' = None \<and> (Map.empty :: row) ''Margin_Pct'' = None"
    by simp
  have sums: "clamp_score (50 + profit_adj (Fin 250) + velocity_adj (Fin 30) + roi_adj (Fin 40)
       + margin_adj (Fin (25 / 2))) = 80 \<and>
     clamp_score (50 + profit_adj (Fin 0) + velocity_adj (Fin 0) + roi_adj (Fin 0)
       + margin_adj (Fin 0)) = 35"
    by (simp add: clamp_score_def profit_adj_def velocity_adj_def roi_adj_def margin_adj_def
        adjustment_def)
  have agree: "list_all (\<lambda>k. example_row k = (example_row(''SKU'' \<mapsto> Str ''SKU-0001'')) k) score_fields"
    by (simp add: score_fields_def)
  show ?thesis
    using health_score_formula [of example_row "Fin 250" "Fin 30" "Fin 40" "Fin (25 / 2)"
        "example_row(''SKU'' \<mapsto> Str ''SKU-0001'')"]
      health_score_formula [of Map.empty "Fin 0" "Fin 0" "Fin 0" "Fin 0" Map.empty]
      content absent sums example_row_numeric agree
    by blast
qed

text \<open>
  Claim C4. \<^verbatim>\<open>assign_performance_tier\<close> maps a score of at least 80 to Star, a score
  from 60 to 79 to Strong, a score from 45 to 59 to Average and every other score to Weak;
  80 is Star and 59 is Average.
\<close>

theorem assign_performance_tier_thresholds:
  "(80 \<le> s \<longrightarrow> assign_performance_tier s = ''Star'') \<and>
   (60 \<le> s \<and> s < 80 \<longrightarrow> assign_performance_tier s = ''Strong'') \<and>
   (45 \<le> s \<and> s < 60 \<longrightarrow> assign_performance_tier s = ''Average'') \<and>
   (s < 45 \<longrightarrow> assign_performance_tier s = ''Weak'') \<and>
   assign_performance_tier 80 = ''Star'' \<and>
   assign_performance_tier 59 = ''Average''"
  by (simp add: assign_performance_tier_def)

theorem assign_performance_tier_thresholds_witness:
  "assign_performance_tier 93 = ''Star'' \<and> assign_performance_tier 60 = ''Strong'' \<and>
   assign_performance_tier 45 = ''Average'' \<and> assign_performance_tier 44 = ''Weak'' \<and>
   assign_performance_tier 80 = ''Star'' \<and> assign_performance_tier 59 = ''Average''"
  using assign_performance_tier_thresholds [of 93] assign_performance_tier_thresholds [of 60]
    assign_performance_tier_thresholds [of 45] assign_performance_tier_thresholds [of 44]
  by simp

text \<open>
  Claim C10. On numeric fields the score is at least 10: the unclamped sum is already at
  least 10, so the lower clamp at 0 never changes it and the result is the minimum of 100
  and the sum. The value 10 is reached when Net_Profit is negative, Units_Sold is 0,
  ROI_Pct is negative and Margin_Pct is below 5.
\<close>

theorem health_score_at_least_10:
  "numeric_field r ''Net_Profit'' \<and> numeric_field r ''Units_Sold'' \<and>
   numeric_field r ''ROI_Pct'' \<and> numeric_field r ''Margin_Pct'' \<longrightarrow>
   (\<exists>s. calculate_health_score r = Inr s \<and> 10 \<le> s \<and> s \<le> 100 \<and>
      s = min 100 (margin_step (roi_step (units_step (profit_step 50
            (field_num r ''Net_Profit'')) (field_num r ''Units_Sold''))
            (field_num r ''ROI_Pct'')) (field_num r ''Margin_Pct''))) \<and>
   (py_lt (field_num r ''Net_Profit'') 0 \<and> py_eq (field_num r ''Units_Sold'') 0 \<and>
    py_lt (field_num r ''ROI_Pct'') 0 \<and> py_lt (field_num r ''Margin_Pct'') 5 \<longrightarrow>
    calculate_health_score r = Inr 10)"
proof (intro impI conjI)
  assume num: "numeric_field r ''Net_Profit'' \<and> numeric_field r ''Units_Sold'' \<and>
    numeric_field r ''ROI_Pct'' \<and> numeric_field r ''Margin_Pct''"
  let ?a = "field_num r ''Net_Profit''" and ?b = "field_num r ''Units_Sold''"
  let ?c = "field_num r ''ROI_Pct''" and ?d = "field_num r ''Margin_Pct''"
  let ?sum = "50 + profit_adj ?a + velocity_adj ?b + roi_adj ?c + margin_adj ?d"
  have steps: "margin_step (roi_step (units_step (profit_step 50 ?a) ?b) ?c) ?d = ?sum"
    by (simp add: profit_step_adj units_step_adj roi_step_adj margin_step_adj)
  have val: "calculate_health_score r = Inr (max 0 (min 100 ?sum))"
    using num by (simp add: score_numeric)
  have rng: "10 \<le> ?sum \<and> ?sum \<le> 100"
    by (rule score_sum_range)
  show "\<exists>s. calculate_health_score r = Inr s \<and> 10 \<le> s \<and> s \<le> 100 \<and>
      s = min 100 (margin_step (roi_step (units_step (profit_step 50 ?a) ?b) ?c) ?d)"
    using val rng by (simp add: steps)
  assume low: "py_lt ?a 0 \<and> py_eq ?b 0 \<and> py_lt ?c 0 \<and> py_lt ?d 5"
  have "?sum = 10"
    using low
    by (cases ?a; cases ?b; cases ?c; cases ?d)
      (simp_all add: profit_adj_def velocity_adj_def roi_adj_def margin_adj_def adjustment_def)
  then show "calculate_health_score r = Inr 10"
    using val by simp
qed

theorem health_score_at_least_10_witness:
  "numeric_field worst_row ''Net_Profit'' \<and> numeric_field worst_row ''Units_Sold'' \<and>
   numeric_field worst_row ''ROI_Pct'' \<and> numeric_field worst_row ''Margin_Pct'' \<and>
   py_lt (field_num worst_row ''Net_Profit'') 0 \<and> py_eq (field_num worst_row ''Units_Sold'') 0 \<and>
   py_lt (field_num worst_row ''ROI_Pct'') 0 \<and> py_lt (field_num worst_row ''Margin_Pct'') 5 \<and>
   calculate_health_score worst_row = Inr 10"
proof -
  have low: "py_lt (field_num worst_row ''Net_Profit'') 0 \<and>
      py_eq (field_num worst_row ''Units_Sold'') 0 \<and>
      py_lt (field_num worst_row ''ROI_Pct'') 0 \<and> py_lt (field_num worst_row ''Margin_Pct'') 5"
    by (simp add: field_num_def row_get_def worst_row_def)
  show ?thesis
    using health_score_at_least_10 [of worst_row] worst_row_numeric low by blast
qed

section \<open>Properties of the categorizer\<close>

lemma contains_sublist: "contains kw s \<longleftrightarrow> sublist kw s"
  by (induction s) (simp_all add: sublist_Cons_right)

lemma keyword_match_contains:
  "keyword_match keywords n \<longleftrightarrow> list_ex (\<lambda>kw. contains kw (str_lower n)) keywords"
  by (auto simp: keyword_match_def list_ex_iff contains_sublist sublist_def)

lemma scan_categories_first:
  assumes "i < length tbl"
    and "list_ex (\<lambda>kw. contains kw s) (snd (tbl ! i))"
    and "list_all (\<lambda>e. \<not> list_ex (\<lambda>kw. contains kw s) (snd e)) (take i tbl)"
  shows "scan_categories tbl s = fst (tbl ! i)"
  using assms
proof (induction tbl arbitrary: i)
  case Nil
  then show ?case by simp
next
  case (Cons e tbl)
  obtain c kws where e: "e = (c, kws)"
    by (cases e)
  show ?case
  proof (cases i)
    case 0
    with Cons.prems e show ?thesis by simp
  next
    case (Suc j)
    with Cons.prems e have "\<not> list_ex (\<lambda>kw. contains kw s) kws"
      by simp
    moreover have "scan_categories tbl s = fst (tbl ! j)"
      using Cons.IH [of j] Cons.prems Suc by simp
    ultimately show ?thesis
      using e Suc by simp
  qed
qed

lemma scan_categories_none:
  "list_all (\<lambda>e. \<not> list_ex (\<lambda>kw. contains kw s) (snd e)) tbl \<Longrightarrow>
   scan_categories tbl s = ''Other''"
  by (induction tbl s rule: scan_categories.induct) simp_all

lemma scan_categories_label: "scan_categories tbl s \<in> set (map fst tbl @ [''Other''])"
  by (induction tbl s rule: scan_categories.induct) auto

lemma category_labels_10: "length category_labels = 10 \<and> distinct category_labels"
  by (simp add: category_labels_def category_keywords_def)

lemma usb_charger_cable: "assign_category ''USB Charger Cable'' = ''Electronics & Home''"
  by (simp add: assign_category_def category_keywords_def str_lower_def lower_char_def)

text \<open>
  Claim C7. \<^verbatim>\<open>assign_category\<close> lower-cases the name and returns the first category,
  in table order, one of whose keywords is a substring of it: the category at position
  \<open>i\<close> when it has a matching keyword and no category before it has one, Other when no
  category has one. The result is one of 10 distinct labels, and the name
  \<^verbatim>\<open>USB Charger Cable\<close> gets \<^verbatim>\<open>Electronics & Home\<close>.
\<close>

theorem assign_category_first_match:
  "(i < length category_keywords \<and> keyword_match (snd (category_keywords ! i)) product_name \<and>
    list_all (\<lambda>e. \<not> keyword_match (snd e) product_name) (take i category_keywords) \<longrightarrow>
    assign_category product_name = fst (category_keywords ! i)) \<and>
   (list_all (\<lambda>e. \<not> keyword_match (snd e) product_name) category_keywords \<longrightarrow>
    assign_category product_name = ''Other'') \<and>
   assign_category product_name \<in> set category_labels \<and>
   length category_labels = 10 \<and> distinct category_labels \<and>
   assign_category ''USB Charger Cable'' = ''Electronics & Home''"
  using scan_categories_first [of i category_keywords "str_lower product_name"]
    scan_categories_none [of "str_lower product_name" category_keywords]
    scan_categories_label [of category_keywords "str_lower product_name"]
    category_labels_10 usb_charger_cable
  by (simp add: keyword_match_contains assign_category_def category_labels_def)

theorem assign_category_first_match_witness:
  "6 < length category_keywords \<and>
   keyword_match (snd (category_keywords ! 6)) ''Glass Water Bottle'' \<and>
   list_all (\<lambda>e. \<not> keyword_match (snd e) ''Glass Water Bottle'') (take 6 category_keywords) \<and>
   assign_category ''Glass Water Bottle'' = fst (category_keywords ! 6) \<and>
   fst (category_keywords ! 6) = ''Drinkware'' \<and>
   list_all (\<lambda>e. \<not> keyword_match (snd e) ''Widget 9000'') category_keywords \<and>
   assign_category ''Widget 9000'' = ''Other''"
proof -
  have len: "6 < length category_keywords"
    by (simp add: category_keywords_def)
  have hit: "keyword_match (snd (category_keywords ! 6)) ''Glass Water Bottle''"
    by (simp add: keyword_match_contains category_keywords_def str_lower_def lower_char_def)
  have before: "list_all (\<lambda>e. \<not> keyword_match (snd e) ''Glass Water Bottle'')
      (take 6 category_keywords)"
    by (simp add: keyword_match_contains category_keywords_def str_lower_def lower_char_def)
  have label: "fst (category_keywords ! 6) = ''Drinkware''"
    by (simp add: category_keywords_def)
  have none: "list_all (\<lambda>e. \<not> keyword_match (snd e) ''Widget 9000'') category_keywords"
    by (simp add: keyword_match_contains category_keywords_def str_lower_def lower_char_def)
  show ?thesis
    using assign_category_first_match [of 6 "''Glass Water Bottle''"]
      assign_category_first_match [of 0 "''Widget 9000''"] len hit before label none
    by blast
qed

section \<open>Properties of the numeric cleaner\<close>

lemma dbl_overflow_big: "10 ^ 300 < dbl_overflow"
  by (simp add: dbl_overflow_def)

lemma to_double_fin: "\<bar>v\<bar> \<le> 10 ^ 9 \<Longrightarrow> to_double v = Fin v"
proof -
  assume a: "\<bar>v\<bar> \<le> 10 ^ 9"
  have "10 ^ 9 < dbl_overflow"
    by (rule less_trans [OF _ dbl_overflow_big]) simp
  with a show ?thesis by (auto simp: to_double_def)
qed

lemma float_of_int_fin: "\<bar>n\<bar> \<le> 10 ^ 9 \<Longrightarrow> float_of_int n = Inr (Fin (of_int n))"
proof -
  assume a: "\<bar>n\<bar> \<le> 10 ^ 9"
  then have "\<bar>of_int n :: rat\<bar> \<le> 10 ^ 9"
    by (metis of_int_abs of_int_le_iff of_int_numeral of_int_power)
  moreover have "10 ^ 9 < dbl_overflow"
    by (rule less_trans [OF _ dbl_overflow_big]) simp
  ultimately show ?thesis by (simp add: float_of_int_def)
qed

lemma strtod_result_fin:
  assumes "1 / 10 ^ 9 \<le> \<bar>v\<bar>" "\<bar>v\<bar> \<le> 10 ^ 9"
  shows "strtod_result v = Fin v"
proof -
  have "(1::rat) / 2 ^ 1075 < 1 / 10 ^ 9"
    by simp
  then have "\<not> \<bar>v\<bar> \<le> 1 / 2 ^ 1075"
    using assms(1) by linarith
  then show ?thesis
    using assms(2) by (simp add: strtod_result_def to_double_fin)
qed

lemma strtod_result_0: "strtod_result 0 = Fin 0"
  by (simp add: strtod_result_def)

lemma clean_example_5191: "clean_european_number (CStr ''5 191,16'') = Inr (Fin (519116 / 100))"
  by (simp add: clean_european_number_def isna_def replace_char_def float_of_str_def
      strip_ws_def is_space_def is_digit_def parse_inf_or_nan_def str_lower_def lower_char_def
      parse_decimal_def parse_exponent_def scale10_def nat_of_digits_def digit_val_def
      strtod_result_fin)

lemma clean_example_signed:
  "clean_european_number (CStr ''-1 234,50'') = Inr (Fin (- 2469 / 2))"
  by (simp add: clean_european_number_def isna_def replace_char_def float_of_str_def
      strip_ws_def is_space_def is_digit_def parse_inf_or_nan_def str_lower_def lower_char_def
      parse_decimal_def parse_exponent_def scale10_def nat_of_digits_def digit_val_def
      strtod_result_fin)

lemma clean_example_none: "clean_european_number CNone = Inr (Fin 0)"
  by (simp add: clean_european_number_def isna_def)

lemma replace_space: "replace_char (CHR '' '') [] s = filter (\<lambda>c. c \<noteq> CHR '' '') s"
  by (induction s) (simp_all add: replace_char_def)

lemma is_digit_cases:
  "is_digit c \<Longrightarrow> c \<noteq> CHR '','' \<and> c \<noteq> CHR ''_'' \<and> c \<noteq> CHR ''-'' \<and> c \<noteq> CHR ''+'' \<and>
     c \<noteq> CHR ''.'' \<and> \<not> is_space c \<and> lower_char c = c \<and> c \<noteq> CHR ''i'' \<and> c \<noteq> CHR ''n''"
  unfolding is_digit_def by (elim disjE | simp add: is_space_def lower_char_def)+

lemma replace_comma_digits: "list_all is_digit ds \<Longrightarrow> replace_char (CHR '','') ''.'' ds = ds"
  by (induction ds) (auto simp: replace_char_def dest: is_digit_cases)

lemma replace_char_append:
  "replace_char a b (xs @ ys) = replace_char a b xs @ replace_char a b ys"
  by (simp add: replace_char_def)

lemma replace_comma_number:
  "list_all is_digit ip \<Longrightarrow> list_all is_digit fp \<Longrightarrow>
   replace_char (CHR '','') ''.'' (ip @ CHR '','' # fp) = ip @ CHR ''.'' # fp"
  using replace_char_append [of "CHR '',''" "''.''" ip "CHR '','' # fp"]
    replace_char_append [of "CHR '',''" "''.''" "[CHR '','']" fp]
  by (simp add: replace_comma_digits) (simp add: replace_char_def)

lemma digits_no_space: "list_all is_digit ds \<Longrightarrow> dropWhile is_space ds = ds"
  by (cases ds) (auto dest: is_digit_cases)

lemma strip_ws_id:
  assumes "t \<noteq> []" "\<not> is_space (hd t)" "\<not> is_space (last t)"
  shows "strip_ws t = t"
proof -
  have "dropWhile is_space t = t"
    using assms by (cases t) simp_all
  moreover have "dropWhile is_space (rev t) = rev t"
    using assms by (cases "rev t") (simp_all add: last_rev [symmetric] hd_rev)
  ultimately show ?thesis
    by (simp add: strip_ws_def)
qed

lemma underscores_ok_none:
  "CHR ''_'' \<notin> set t \<Longrightarrow> prev \<noteq> CHR ''_'' \<Longrightarrow> underscores_ok prev t"
  by (induction t arbitrary: prev) auto

lemma filter_underscore_none: "CHR ''_'' \<notin> set t \<Longrightarrow> filter (\<lambda>c. c \<noteq> CHR ''_'') t = t"
  by (induction t) auto

lemma nat_of_digits_append:
  "nat_of_digits (xs @ ys) = nat_of_digits xs * 10 ^ length ys + nat_of_digits ys"
proof (induction ys rule: rev_induct)
  case Nil
  then show ?case by (simp add: nat_of_digits_def)
next
  case (snoc y ys)
  have "nat_of_digits (xs @ ys @ [y]) = 10 * nat_of_digits (xs @ ys) + digit_val y"
    by (simp add: nat_of_digits_def)
  also have "\<dots> = 10 * (nat_of_digits xs * 10 ^ length ys + nat_of_digits ys) + digit_val y"
    by (simp add: snoc.IH)
  also have "\<dots> = nat_of_digits xs * 10 ^ length (ys @ [y]) + nat_of_digits (ys @ [y])"
    by (simp add: nat_of_digits_def algebra_simps)
  finally show ?case by simp
qed

lemma nat_of_digits_snoc: "nat_of_digits (ds @ [d]) = 10 * nat_of_digits ds + digit_val d"
  by (simp add: nat_of_digits_def)

lemma nat_of_digits_zeros: "nat_of_digits (replicate k (CHR ''0'') @ s) = nat_of_digits s"
proof -
  have "nat_of_digits (replicate k (CHR ''0'')) = 0"
    by (induction k) (simp_all add: nat_of_digits_def digit_val_def)
  then show ?thesis
    by (simp add: nat_of_digits_append)
qed

lemma decimal_value_snoc: "decimal_value (ds @ [d]) = 10 * decimal_value ds + digit_val d"
proof -
  have "(\<Sum>i < length ds. digit_val ((ds @ [d]) ! i) * 10 ^ (length (ds @ [d]) - 1 - i))
      = (\<Sum>i < length ds. 10 * (digit_val (ds ! i) * 10 ^ (length ds - 1 - i)))"
  proof (rule sum.cong)
    fix i assume "i \<in> {..<length ds}"
    then have i: "i < length ds" by simp
    then have "length (ds @ [d]) - 1 - i = Suc (length ds - 1 - i)" by simp
    then show "digit_val ((ds @ [d]) ! i) * 10 ^ (length (ds @ [d]) - 1 - i)
        = 10 * (digit_val (ds ! i) * 10 ^ (length ds - 1 - i))"
      using i by (simp add: nth_append)
  qed simp
  then show ?thesis
    by (simp add: decimal_value_def sum_distrib_left)
qed

lemma nat_of_digits_decimal_value: "nat_of_digits ds = decimal_value ds"
proof (induction ds rule: rev_induct)
  case Nil
  then show ?case by (simp add: nat_of_digits_def decimal_value_def)
next
  case (snoc d ds)
  then show ?case by (simp add: nat_of_digits_snoc decimal_value_snoc)
qed

lemma takeWhile_digits:
  "list_all is_digit ds \<Longrightarrow> \<not> is_digit c \<Longrightarrow> takeWhile is_digit (ds @ c # r) = ds"
  by (induction ds) simp_all

lemma dropWhile_digits:
  "list_all is_digit ds \<Longrightarrow> \<not> is_digit c \<Longrightarrow> dropWhile is_digit (ds @ c # r) = c # r"
  by (induction ds) simp_all

lemma takeWhile_all_digits: "list_all is_digit ds \<Longrightarrow> takeWhile is_digit ds = ds"
  by (induction ds) simp_all

lemma dropWhile_all_digits: "list_all is_digit ds \<Longrightarrow> dropWhile is_digit ds = []"
  by (induction ds) simp_all

lemma point_not_digit: "\<not> is_digit (CHR ''.'')"
  by (simp add: is_digit_def)

lemma parse_decimal_fraction:
  assumes "list_all is_digit ip" "list_all is_digit fp" "ip \<noteq> []"
  shows "parse_decimal (ip @ CHR ''.'' # fp)
    = Some (of_nat (nat_of_digits ip) + of_nat (nat_of_digits fp) / 10 ^ length fp)"
proof -
  have tk: "takeWhile is_digit (ip @ CHR ''.'' # fp) = ip"
    using assms(1) point_not_digit by (rule takeWhile_digits)
  have dr: "dropWhile is_digit (ip @ CHR ''.'' # fp) = CHR ''.'' # fp"
    using assms(1) point_not_digit by (rule dropWhile_digits)
  have "parse_decimal (ip @ CHR ''.'' # fp)
      = Some (scale10 (of_nat (nat_of_digits (ip @ fp))) (- int (length fp)))"
    using assms(2,3)
    by (simp add: parse_decimal_def tk dr takeWhile_all_digits dropWhile_all_digits
        parse_exponent_def Let_def)
  moreover have "scale10 (of_nat (nat_of_digits (ip @ fp))) (- int (length fp))
      = of_nat (nat_of_digits ip) + of_nat (nat_of_digits fp) / 10 ^ length fp"
    by (simp add: scale10_def nat_of_digits_append add_divide_distrib)
  ultimately show ?thesis by simp
qed

lemma parse_decimal_integer:
  assumes "list_all is_digit ip" "ip \<noteq> []"
  shows "parse_decimal ip = Some (of_nat (nat_of_digits ip))"
  using assms
  by (simp add: parse_decimal_def takeWhile_all_digits dropWhile_all_digits
      parse_exponent_def Let_def scale10_def)

lemma float_of_str_signed:
  assumes sg: "sg = [] \<or> sg = ''+'' \<or> sg = ''-''"
    and u: "u \<noteq> []" "is_digit (hd u)" "\<not> is_space (last u)" "CHR ''_'' \<notin> set u"
  shows "float_of_str (sg @ u)
    = map_option (\<lambda>v. strtod_result (if sg = ''-'' then - v else v)) (parse_decimal u)"
proof -
  obtain c cs where uc: "u = c # cs"
    using u(1) by (cases u) auto
  have c: "is_digit c"
    using u(2) uc by simp
  let ?t = "sg @ u"
  have ne: "?t \<noteq> []"
    using u(1) by simp
  have hd: "\<not> is_space (hd ?t)"
    using sg c uc by (auto simp: is_space_def dest: is_digit_cases)
  have last: "\<not> is_space (last ?t)"
    using u(1,3) by simp
  have strip: "strip_ws ?t = ?t"
    using ne hd last by (rule strip_ws_id)
  have no_us: "CHR ''_'' \<notin> set ?t"
    using sg u(4) by auto
  have us: "underscores_ok (CHR 0x00) ?t"
    using no_us by (intro underscores_ok_none) simp_all
  have flt: "filter (\<lambda>c. c \<noteq> CHR ''_'') ?t = ?t"
    using no_us by (rule filter_underscore_none)
  have sign: "parse_sign ?t = (sg = ''-'', u)"
    using sg c uc by (auto dest: is_digit_cases)
  have low: "str_lower u = c # str_lower cs"
    using c uc by (simp add: str_lower_def is_digit_cases)
  have special: "parse_inf_or_nan ?t = None"
    using c by (auto simp: parse_inf_or_nan_def sign low dest: is_digit_cases)
  show ?thesis
    unfolding float_of_str_def strip Let_def flt special sign
    using ne us u(1) by (simp split: option.splits)
qed

lemma replace_comma_sign:
  "sg = [] \<or> sg = ''+'' \<or> sg = ''-'' \<Longrightarrow> replace_char (CHR '','') ''.'' sg = sg"
  by (auto simp: replace_char_def)

lemma clean_fraction:
  assumes "list_all is_digit ip" "ip \<noteq> []" "list_all is_digit fp"
    and sg: "sg = [] \<or> sg = ''+'' \<or> sg = ''-''"
    and "filter (\<lambda>c. c \<noteq> CHR '' '') s = sg @ ip @ CHR '','' # fp"
  shows "clean_european_number (CStr s)
    = Inr (strtod_result (if sg = ''-''
        then - (of_nat (decimal_value ip) + of_nat (decimal_value fp) / 10 ^ length fp)
        else of_nat (decimal_value ip) + of_nat (decimal_value fp) / 10 ^ length fp))"
proof -
  let ?u = "ip @ CHR ''.'' # fp"
  have cleaned: "replace_char (CHR '','') ''.'' (replace_char (CHR '' '') [] s) = sg @ ?u"
    using assms(1,3,5) sg
      replace_char_append [of "CHR '',''" "''.''" sg "ip @ CHR '','' # fp"]
    by (simp add: replace_space replace_comma_sign replace_comma_number)
  have hd: "is_digit (hd ?u)"
    using assms(1,2) by (cases ip) simp_all
  have last: "\<not> is_space (last ?u)"
  proof (cases "fp = []")
    case True
    then show ?thesis by (simp add: is_space_def)
  next
    case False
    then have "last ?u = last fp" by simp
    moreover have "is_digit (last fp)"
      using assms(3) False by (simp add: list_all_iff)
    ultimately show ?thesis by (simp add: is_digit_cases)
  qed
  have no_us: "CHR ''_'' \<notin> set ?u"
    using assms(1,3) by (auto simp: list_all_iff dest: is_digit_cases)
  have "float_of_str (sg @ ?u)
      = map_option (\<lambda>v. strtod_result (if sg = ''-'' then - v else v)) (parse_decimal ?u)"
    using sg _ hd last no_us by (rule float_of_str_signed) simp
  then show ?thesis
    using assms(1,2,3)
    by (simp add: clean_european_number_def isna_def cleaned parse_decimal_fraction
        nat_of_digits_decimal_value)
qed

lemma clean_integer:
  assumes "list_all is_digit ip" "ip \<noteq> []"
    and sg: "sg = [] \<or> sg = ''+'' \<or> sg = ''-''"
    and "filter (\<lambda>c. c \<noteq> CHR '' '') s = sg @ ip"
  shows "clean_european_number (CStr s)
    = Inr (strtod_result (if sg = ''-'' then - of_nat (decimal_value ip)
        else of_nat (decimal_value ip)))"
proof -
  have cleaned: "replace_char (CHR '','') ''.'' (replace_char (CHR '' '') [] s) = sg @ ip"
    using assms(1,4) sg replace_char_append [of "CHR '',''" "''.''" sg ip]
    by (simp add: replace_space replace_comma_sign replace_comma_digits)
  have hd: "is_digit (hd ip)"
    using assms(1,2) by (cases ip) simp_all
  have "is_digit (last ip)"
    using assms(1,2) by (simp add: list_all_iff)
  then have last: "\<not> is_space (last ip)"
    by (simp add: is_digit_cases)
  have no_us: "CHR ''_'' \<notin> set ip"
    using assms(1) by (auto simp: list_all_iff dest: is_digit_cases)
  have "float_of_str (sg @ ip)
      = map_option (\<lambda>v. strtod_result (if sg = ''-'' then - v else v)) (parse_decimal ip)"
    using sg assms(2) hd last no_us by (rule float_of_str_signed)
  then show ?thesis
    using assms(1,2)
    by (simp add: clean_european_number_def isna_def cleaned parse_decimal_integer
        nat_of_digits_decimal_value)
qed

lemma strtod_regimes:
  assumes "0 \<le> v"
  shows "1 / 2 ^ 1075 < v \<Longrightarrow> v < 2 ^ 1024 - 2 ^ 970 \<Longrightarrow>
      strtod_result v = Fin v \<and> strtod_result (- v) = Fin (- v)"
    and "v \<le> 1 / 2 ^ 1075 \<Longrightarrow> strtod_result v = Fin 0 \<and> strtod_result (- v) = Fin 0"
    and "2 ^ 1024 - 2 ^ 970 \<le> v \<Longrightarrow> strtod_result v = PInf \<and> strtod_result (- v) = NInf"
proof -
  have abs: "\<bar>v\<bar> = v" "\<bar>- v\<bar> = v"
    using assms by simp_all
  have tiny: "(1::rat) / 2 ^ 1075 < 2 ^ 1024 - 2 ^ 970"
    by simp
  show "strtod_result v = Fin v \<and> strtod_result (- v) = Fin (- v)"
    if "1 / 2 ^ 1075 < v" "v < 2 ^ 1024 - 2 ^ 970"
    using that assms by (simp add: strtod_result_def abs to_double_def dbl_overflow_def)
  show "strtod_result v = Fin 0 \<and> strtod_result (- v) = Fin 0" if "v \<le> 1 / 2 ^ 1075"
    using that by (simp add: strtod_result_def abs)
  show "strtod_result v = PInf \<and> strtod_result (- v) = NInf" if "2 ^ 1024 - 2 ^ 970 \<le> v"
  proof -
    have "\<not> v \<le> 1 / 2 ^ 1075"
      using that tiny by linarith
    then show ?thesis
      using that by (simp add: strtod_result_def abs to_double_def dbl_overflow_def)
  qed
qed

lemma clean_float: "x \<noteq> NaN \<Longrightarrow> clean_european_number (CFloat x) = Inr x"
  by (simp add: clean_european_number_def isna_def)

lemma clean_int:
  "\<bar>of_int n :: rat\<bar> < 2 ^ 1024 - 2 ^ 970 \<Longrightarrow>
   clean_european_number (CInt n) = Inr (Fin (of_int n))"
  by (simp add: clean_european_number_def isna_def float_of_int_def dbl_overflow_def)

lemma clean_int_overflow:
  "2 ^ 1024 - 2 ^ 970 \<le> \<bar>of_int n :: rat\<bar> \<Longrightarrow>
   clean_european_number (CInt n) = Inl OverflowError"
  by (simp add: clean_european_number_def isna_def float_of_int_def dbl_overflow_def)

lemma clean_bool:
  "clean_european_number (CBool True) = Inr (Fin 1)"
  "clean_european_number (CBool False) = Inr (Fin 0)"
  by (simp_all add: clean_european_number_def isna_def)

lemma clean_returns: "representable v \<Longrightarrow> \<exists>x. clean_european_number v = Inr x"
  by (cases v)
    (simp_all add: clean_european_number_def isna_def representable_def float_of_int_def
      split: option.splits)

lemma zeros_digits: "list_all is_digit (replicate k (CHR ''0''))"
  by (induction k) (simp_all add: is_digit_def)

lemma zeros_no_space:
  "filter (\<lambda>c. c \<noteq> CHR '' '') (replicate k (CHR ''0'')) = replicate k (CHR ''0'')"
  by (induction k) simp_all

lemma decimal_value_zeros: "decimal_value (replicate k (CHR ''0'') @ s) = decimal_value s"
  using nat_of_digits_zeros [of k s] by (simp add: nat_of_digits_decimal_value)

lemma decimal_value_power: "decimal_value (CHR ''1'' # replicate k (CHR ''0'')) = 10 ^ k"
proof -
  have "nat_of_digits (replicate k (CHR ''0'') @ []) = nat_of_digits []"
    by (rule nat_of_digits_zeros)
  then have "nat_of_digits (replicate k (CHR ''0'')) = 0"
    by (simp add: nat_of_digits_def)
  then have "nat_of_digits (''1'' @ replicate k (CHR ''0'')) = 10 ^ k"
    unfolding nat_of_digits_append by (simp add: nat_of_digits_def digit_val_def)
  then show ?thesis
    by (simp add: nat_of_digits_decimal_value)
qed

text \<open>
  Claim C5. A string made of an optional sign, digits, spaces and one comma (spaces as
  thousands separators, the comma as the decimal separator) is converted to the float of
  the number it denotes, the integer digits' value plus the fraction digits' value over
  the matching power of ten, negated after a minus sign: the double nearest to that number
  within the range of a double, 0 when the number is at most \<open>2^-1075\<close>, and an infinity
  when it is at or beyond \<open>2^1024 - 2^970\<close>. A string of an optional sign, digits and
  spaces is converted in the same way to the float of its integer value. A float that is
  not NaN is returned as it is, an integer within the range of a double is returned as the
  float of the same value, and a bool as 1.0 or 0.0. \<^verbatim>\<open>"5 191,16"\<close> gives 5191.16,
  \<^verbatim>\<open>"-1 234,50"\<close> gives -1234.5 and None gives 0.0.
\<close>

theorem clean_european_number_converts:
  "(list_all is_digit ip \<and> ip \<noteq> [] \<and> list_all is_digit fp \<and>
    (sg = [] \<or> sg = ''+'' \<or> sg = ''-'') \<and>
    filter (\<lambda>c. c \<noteq> CHR '' '') s = sg @ ip @ CHR '','' # fp \<and>
    v = of_nat (decimal_value ip) + of_nat (decimal_value fp) / 10 ^ length fp \<longrightarrow>
      (1 / 2 ^ 1075 < v \<and> v < 2 ^ 1024 - 2 ^ 970 \<longrightarrow>
         clean_european_number (CStr s) = Inr (Fin (if sg = ''-'' then - v else v))) \<and>
      (v \<le> 1 / 2 ^ 1075 \<longrightarrow> clean_european_number (CStr s) = Inr (Fin 0)) \<and>
      (2 ^ 1024 - 2 ^ 970 \<le> v \<longrightarrow>
         clean_european_number (CStr s) = Inr (if sg = ''-'' then NInf else PInf))) \<and>
   (list_all is_digit ip \<and> ip \<noteq> [] \<and> (sg = [] \<or> sg = ''+'' \<or> sg = ''-'') \<and>
    filter (\<lambda>c. c \<noteq> CHR '' '') s = sg @ ip \<and> w = of_nat (decimal_value ip) \<longrightarrow>
      (w < 2 ^ 1024 - 2 ^ 970 \<longrightarrow>
         clean_european_number (CStr s) = Inr (Fin (if sg = ''-'' then - w else w))) \<and>
      (2 ^ 1024 - 2 ^ 970 \<le> w \<longrightarrow>
         clean_european_number (CStr s) = Inr (if sg = ''-'' then NInf else PInf))) \<and>
   (x \<noteq> NaN \<longrightarrow> clean_european_number (CFloat x) = Inr x) \<and>
   (\<bar>of_int n :: rat\<bar> < 2 ^ 1024 - 2 ^ 970 \<longrightarrow>
      clean_european_number (CInt n) = Inr (Fin (of_int n))) \<and>
   clean_european_number (CBool True) = Inr (Fin 1) \<and>
   clean_european_number (CBool False) = Inr (Fin 0) \<and>
   clean_european_number (CStr ''5 191,16'') = Inr (Fin (519116 / 100)) \<and>
   clean_european_number (CStr ''-1 234,50'') = Inr (Fin (- 2469 / 2)) \<and>
   clean_european_number CNone = Inr (Fin 0)"
proof -
  have frac: "(1 / 2 ^ 1075 < v \<and> v < 2 ^ 1024 - 2 ^ 970 \<longrightarrow>
         clean_european_number (CStr s) = Inr (Fin (if sg = ''-'' then - v else v))) \<and>
      (v \<le> 1 / 2 ^ 1075 \<longrightarrow> clean_european_number (CStr s) = Inr (Fin 0)) \<and>
      (2 ^ 1024 - 2 ^ 970 \<le> v \<longrightarrow>
         clean_european_number (CStr s) = Inr (if sg = ''-'' then NInf else PInf))"
    if h: "list_all is_digit ip \<and> ip \<noteq> [] \<and> list_all is_digit fp \<and>
      (sg = [] \<or> sg = ''+'' \<or> sg = ''-'') \<and>
      filter (\<lambda>c. c \<noteq> CHR '' '') s = sg @ ip @ CHR '','' # fp \<and>
      v = of_nat (decimal_value ip) + of_nat (decimal_value fp) / 10 ^ length fp"
  proof -
    have res: "clean_european_number (CStr s)
        = Inr (strtod_result (if sg = ''-'' then - v else v))"
      using h clean_fraction [of ip fp sg s] by simp
    have nonneg: "0 \<le> v"
      using h by simp
    show ?thesis
      using strtod_regimes [OF nonneg] by (auto simp: res)
  qed
  have whole: "(w < 2 ^ 1024 - 2 ^ 970 \<longrightarrow>
         clean_european_number (CStr s) = Inr (Fin (if sg = ''-'' then - w else w))) \<and>
      (2 ^ 1024 - 2 ^ 970 \<le> w \<longrightarrow>
         clean_european_number (CStr s) = Inr (if sg = ''-'' then NInf else PInf))"
    if h: "list_all is_digit ip \<and> ip \<noteq> [] \<and> (sg = [] \<or> sg = ''+'' \<or> sg = ''-'') \<and>
      filter (\<lambda>c. c \<noteq> CHR '' '') s = sg @ ip \<and> w = of_nat (decimal_value ip)"
  proof -
    have res: "clean_european_number (CStr s)
        = Inr (strtod_result (if sg = ''-'' then - w else w))"
      using h clean_integer [of ip sg s] by simp
    have nonneg: "0 \<le> w"
      using h by simp
    have small: "w = 0 \<or> 1 / 2 ^ 1075 < w"
    proof (cases "decimal_value ip")
      case 0
      then show ?thesis using h by simp
    next
      case (Suc k)
      then have "1 \<le> w"
        using h by simp
      moreover have "(1::rat) / 2 ^ 1075 < 1"
        by simp
      ultimately show ?thesis by linarith
    qed
    have zero: "strtod_result 0 = Fin 0"
      by (rule strtod_result_0)
    show ?thesis
      using strtod_regimes [OF nonneg] small zero by (auto simp: res)
  qed
  show ?thesis
    by (intro conjI impI)
      (use frac whole clean_float [of x] clean_int [of n] clean_bool clean_example_5191
        clean_example_signed clean_example_none in blast)+
qed

theorem clean_european_number_converts_witness:
  "list_all is_digit ''1234'' \<and> ''1234'' \<noteq> [] \<and> list_all is_digit ''50'' \<and>
   filter (\<lambda>c. c \<noteq> CHR '' '') ''-1 234,50'' = ''-'' @ ''1234'' @ CHR '','' # ''50'' \<and>
   (2469 / 2 :: rat)
     = of_nat (decimal_value ''1234'') + of_nat (decimal_value ''50'') / 10 ^ length ''50'' \<and>
   1 / 2 ^ 1075 < (2469 / 2 :: rat) \<and> (2469 / 2 :: rat) < 2 ^ 1024 - 2 ^ 970 \<and>
   clean_european_number (CStr ''-1 234,50'') = Inr (Fin (- (2469 / 2))) \<and>
   list_all is_digit ''0'' \<and> list_all is_digit (replicate 400 (CHR ''0'') @ ''1'') \<and>
   filter (\<lambda>c. c \<noteq> CHR '' '') (''0,'' @ replicate 400 (CHR ''0'') @ ''1'')
     = [] @ ''0'' @ CHR '','' # (replicate 400 (CHR ''0'') @ ''1'') \<and>
   (1 / 10 ^ 401 :: rat)
     = of_nat (decimal_value ''0'')
       + of_nat (decimal_value (replicate 400 (CHR ''0'') @ ''1''))
         / 10 ^ length (replicate 400 (CHR ''0'') @ ''1'') \<and>
   (1 / 10 ^ 401 :: rat) \<le> 1 / 2 ^ 1075 \<and>
   clean_european_number (CStr (''0,'' @ replicate 400 (CHR ''0'') @ ''1'')) = Inr (Fin 0) \<and>
   list_all is_digit (CHR ''1'' # replicate 309 (CHR ''0'')) \<and>
   filter (\<lambda>c. c \<noteq> CHR '' '') (''-'' @ CHR ''1'' # replicate 309 (CHR ''0''))
     = ''-'' @ CHR ''1'' # replicate 309 (CHR ''0'') \<and>
   (10 ^ 309 :: rat) = of_nat (decimal_value (CHR ''1'' # replicate 309 (CHR ''0''))) \<and>
   2 ^ 1024 - 2 ^ 970 \<le> (10 ^ 309 :: rat) \<and>
   clean_european_number (CStr (''-'' @ CHR ''1'' # replicate 309 (CHR ''0''))) = Inr NInf \<and>
   list_all is_digit ''12000'' \<and>
   filter (\<lambda>c. c \<noteq> CHR '' '') ''12 000'' = [] @ ''12000'' \<and>
   (12000 :: rat) = of_nat (decimal_value ''12000'') \<and>
   (12000 :: rat) < 2 ^ 1024 - 2 ^ 970 \<and>
   clean_european_number (CStr ''12 000'') = Inr (Fin 12000) \<and>
   Fin (5 / 2) \<noteq> NaN \<and> clean_european_number (CFloat (Fin (5 / 2))) = Inr (Fin (5 / 2)) \<and>
   \<bar>of_int (- 7) :: rat\<bar> < 2 ^ 1024 - 2 ^ 970 \<and>
   clean_european_number (CInt (- 7)) = Inr (Fin (of_int (- 7)))"
proof -
  let ?z = "replicate 400 (CHR ''0'') @ ''1''"
  let ?p = "CHR ''1'' # replicate 309 (CHR ''0'')"
  have a1: "list_all is_digit ''1234'' \<and> ''1234'' \<noteq> [] \<and> list_all is_digit ''50'' \<and>
      list_all is_digit ''0'' \<and> list_all is_digit ''12000''"
    by (simp add: is_digit_def)
  have a2: "filter (\<lambda>c. c \<noteq> CHR '' '') ''-1 234,50'' = ''-'' @ ''1234'' @ CHR '','' # ''50''"
    by simp
  have a3: "(2469 / 2 :: rat)
      = of_nat (decimal_value ''1234'') + of_nat (decimal_value ''50'') / 10 ^ length ''50''"
    by (simp add: nat_of_digits_decimal_value [symmetric] nat_of_digits_def digit_val_def)
  have a4: "1 / 2 ^ 1075 < (2469 / 2 :: rat) \<and> (2469 / 2 :: rat) < 2 ^ 1024 - 2 ^ 970"
    by simp
  have b1: "list_all is_digit ?z"
    using zeros_digits [of 400] by (simp add: is_digit_def)
  have b2: "filter (\<lambda>c. c \<noteq> CHR '' '') (''0,'' @ ?z) = [] @ ''0'' @ CHR '','' # ?z"
    using zeros_no_space [of 400] by (simp)
  have b3: "(1 / 10 ^ 401 :: rat)
      = of_nat (decimal_value ''0'') + of_nat (decimal_value ?z) / 10 ^ length ?z"
    unfolding decimal_value_zeros
    by (simp add: nat_of_digits_decimal_value [symmetric] nat_of_digits_def digit_val_def
       )
  have b4: "(1 / 10 ^ 401 :: rat) \<le> 1 / 2 ^ 1075"
    by simp
  have c1: "list_all is_digit ?p"
    using zeros_digits [of 309] by (simp add: is_digit_def)
  have c2: "filter (\<lambda>c. c \<noteq> CHR '' '') (''-'' @ ?p) = ''-'' @ ?p"
    using zeros_no_space [of 309] by (simp)
  have c3: "(10 ^ 309 :: rat) = of_nat (decimal_value ?p)"
    unfolding decimal_value_power by simp
  have c4: "2 ^ 1024 - 2 ^ 970 \<le> (10 ^ 309 :: rat)"
    by simp
  have d2: "filter (\<lambda>c. c \<noteq> CHR '' '') ''12 000'' = [] @ ''12000''"
    by simp
  have d3: "(12000 :: rat) = of_nat (decimal_value ''12000'')"
    by (simp add: nat_of_digits_decimal_value [symmetric] nat_of_digits_def digit_val_def)
  have d4: "(12000 :: rat) < 2 ^ 1024 - 2 ^ 970"
    by simp
  have e1: "Fin (5 / 2) \<noteq> NaN"
    by simp
  have e2: "\<bar>of_int (- 7) :: rat\<bar> < 2 ^ 1024 - 2 ^ 970"
    by simp
  have ne: "''-'' \<noteq> ([] :: string)" "?p \<noteq> []"
    by simp_all
  note inst = clean_european_number_converts [where x = "Fin (5 / 2)" and n = "- 7"]
  have r1: "clean_european_number (CStr ''-1 234,50'') = Inr (Fin (- (2469 / 2)))"
    using inst [where ip = "''1234''" and fp = "''50''" and sg = "''-''"
        and s = "''-1 234,50''" and v = "2469 / 2" and w = 0] a1 a2 a3 a4
    by (simp only: refl simp_thms if_True)
  have r2: "clean_european_number (CStr (''0,'' @ ?z)) = Inr (Fin 0)"
    using inst [where ip = "''0''" and fp = ?z and sg = "[]"
        and s = "''0,'' @ ?z" and v = "1 / 10 ^ 401" and w = 0] a1 b1 b2 b3 b4
    by blast
  have r3: "clean_european_number (CStr (''-'' @ ?p)) = Inr NInf"
    using inst [where ip = ?p and fp = "[]" and sg = "''-''"
        and s = "''-'' @ ?p" and v = 0 and w = "10 ^ 309"] c1 c2 c3 c4 ne
    by (simp only: refl simp_thms if_True)
  have r4: "clean_european_number (CStr ''12 000'') = Inr (Fin 12000)"
    using inst [where ip = "''12000''" and fp = "[]" and sg = "[]"
        and s = "''12 000''" and v = 0 and w = 12000] a1 d2 d3 d4
    by (simp only: refl simp_thms list.distinct if_False append_Nil)
  have r5: "clean_european_number (CFloat (Fin (5 / 2))) = Inr (Fin (5 / 2)) \<and>
      clean_european_number (CInt (- 7)) = Inr (Fin (of_int (- 7)))"
    using inst [where ip = "[]" and fp = "[]" and sg = "[]" and s = "[]" and v = 0 and w = 0]
      e1 e2
    by blast
  show ?thesis
    using a1 a2 a3 a4 b1 b2 b3 b4 c1 c2 c3 c4 d2 d3 d4 e1 e2 r1 r2 r3 r4 r5
    by (intro conjI) ((elim conjE)?, assumption)+
qed

lemma clean_example_exponent: "clean_european_number (CStr ''1e400'') = Inr PInf"
  by (simp add: clean_european_number_def isna_def replace_char_def float_of_str_def
      strip_ws_def is_space_def is_digit_def parse_inf_or_nan_def str_lower_def lower_char_def
      parse_decimal_def parse_exponent_def scale10_def nat_of_digits_def digit_val_def
      strtod_result_def to_double_def dbl_overflow_def)

lemma clean_example_text: "clean_european_number (CStr ''abc'') = Inr (Fin 0)"
  by (simp add: clean_european_number_def isna_def replace_char_def float_of_str_def
      strip_ws_def is_space_def is_digit_def parse_inf_or_nan_def str_lower_def lower_char_def
      parse_decimal_def parse_exponent_def scale10_def nat_of_digits_def digit_val_def)

lemma clean_digits_overflow:
  "clean_european_number (CStr (CHR ''1'' # replicate 309 (CHR ''0''))) = Inr PInf"
proof -
  let ?ip = "CHR ''1'' # replicate 309 (CHR ''0'')"
  have d: "list_all is_digit ?ip"
    using zeros_digits [of 309] by (simp add: is_digit_def)
  have f: "filter (\<lambda>c. c \<noteq> CHR '' '') ?ip = [] @ ?ip"
    using zeros_no_space [of 309] by (simp)
  have "clean_european_number (CStr ?ip) = Inr (strtod_result (of_nat (decimal_value ?ip)))"
    using clean_integer [OF d _ _ f] by simp
  also have "of_nat (decimal_value ?ip) = (10 ^ 309 :: rat)"
    unfolding decimal_value_power by simp
  also have "strtod_result (10 ^ 309) = PInf"
    by (simp add: strtod_result_def to_double_def dbl_overflow_def)
  finally show ?thesis .
qed

text \<open>
  Claim C6. \<^verbatim>\<open>clean_european_number\<close> is not total. Its integer branch calls
  \<^verbatim>\<open>float(value)\<close> outside the \<^verbatim>\<open>try\<close>, so an integer at or beyond the range of
  a double, \<open>10^309\<close>, \<open>2^1024\<close> or \<open>-2^1024\<close>, raises OverflowError to the caller,
  while the string branch returns an infinity for the same magnitude (the same digits as
  a string, or \<^verbatim>\<open>"1e400"\<close>) and 0.0 for a string that \<^verbatim>\<open>float\<close> cannot parse.
  A missing cell (NaN or None) gives 0.0.
\<close>

theorem clean_european_number_int_overflow:
  "clean_european_number (CInt (10 ^ 309)) = Inl OverflowError \<and>
   clean_european_number (CStr (CHR ''1'' # replicate 309 (CHR ''0''))) = Inr PInf \<and>
   clean_european_number (CInt (2 ^ 1024)) = Inl OverflowError \<and>
   clean_european_number (CInt (- (2 ^ 1024))) = Inl OverflowError \<and>
   clean_european_number (CStr ''1e400'') = Inr PInf \<and>
   clean_european_number (CStr ''abc'') = Inr (Fin 0) \<and>
   clean_european_number (CFloat NaN) = Inr (Fin 0) \<and>
   clean_european_number CNone = Inr (Fin 0)"
proof -
  have "clean_european_number (CInt (10 ^ 309)) = Inl OverflowError"
    by (rule clean_int_overflow) simp
  moreover have "clean_european_number (CInt (2 ^ 1024)) = Inl OverflowError"
    by (rule clean_int_overflow) simp
  moreover have "clean_european_number (CInt (- (2 ^ 1024))) = Inl OverflowError"
    by (rule clean_int_overflow) simp
  moreover have "clean_european_number (CFloat NaN) = Inr (Fin 0)"
    by (simp add: clean_european_number_def isna_def)
  ultimately show ?thesis
    using clean_digits_overflow clean_example_exponent clean_example_text clean_example_none
    by (simp only:) 
qed

section \<open>Properties of the SKU table\<close>

lemma collect_Inr:
  "collect ms = Inr ys \<longleftrightarrow> list_all2 (\<lambda>m y. m = Inr y) ms ys"
proof (induction ms arbitrary: ys)
  case Nil
  then show ?case by auto
next
  case (Cons m ms)
  show ?case
  proof (cases m)
    case (Inl e)
    then show ?thesis by (auto simp: bind_err_def list_all2_Cons1)
  next
    case (Inr x)
    show ?thesis
    proof (cases "collect ms")
      case (Inl e)
      with Cons.IH Inr show ?thesis
        by (auto simp: bind_err_def list_all2_Cons1)
    next
      case (Inr xs)
      with Cons.IH \<open>m = Inr x\<close> show ?thesis
        by (auto simp: bind_err_def list_all2_Cons1)
    qed
  qed
qed





declare str_of_nat.simps [simp del]

lemma process_sku_data_Inr:
  assumes "process_sku_data df = Inr out"
  obtains rows where "list_all2 (\<lambda>x y. derive_row x = Inr y) df rows"
    and "out = map (\<lambda>(i, r). r\<lparr>SKU := sku_label i\<rparr>) (enumerate 0 rows)"
proof -
  obtain rows where c: "collect (map derive_row df) = Inr rows"
    and o: "out = map (\<lambda>(i, r). r\<lparr>SKU := sku_label i\<rparr>) (enumerate 0 rows)"
    using assms by (auto simp: process_sku_data_def bind_err_def split: sum.splits)
  from c have "list_all2 (\<lambda>x y. derive_row x = Inr y) df rows"
    by (simp add: collect_Inr list_all2_map1)
  from that [OF this o] show ?thesis .
qed

lemma process_sku_data_length:
  assumes "process_sku_data df = Inr out"
  shows "length out = length df"
proof -
  obtain rows where r: "list_all2 (\<lambda>x y. derive_row x = Inr y) df rows"
    and o: "out = map (\<lambda>(i, r). r\<lparr>SKU := sku_label i\<rparr>) (enumerate 0 rows)"
    using assms by (rule process_sku_data_Inr)
  then show ?thesis
    by (simp add: list_all2_lengthD)
qed

lemma process_sku_data_nth:
  assumes "process_sku_data df = Inr out" "i < length df"
  shows "\<exists>y. derive_row (df ! i) = Inr y \<and> out ! i = y\<lparr>SKU := sku_label i\<rparr>"
proof -
  obtain rows where r: "list_all2 (\<lambda>x y. derive_row x = Inr y) df rows"
    and o: "out = map (\<lambda>(i, r). r\<lparr>SKU := sku_label i\<rparr>) (enumerate 0 rows)"
    using assms(1) by (rule process_sku_data_Inr)
  have len: "length rows = length df"
    using r by (simp add: list_all2_lengthD)
  have "derive_row (df ! i) = Inr (rows ! i)"
    using list_all2_nthD [OF r assms(2)] .
  moreover have "out ! i = (rows ! i)\<lparr>SKU := sku_label i\<rparr>"
    using o len assms(2) by (simp add: nth_enumerate_eq)
  ultimately show ?thesis
    by blast
qed


lemma derive_row_returns:
  assumes "cells_representable x"
  shows "\<exists>y. derive_row x = Inr y"
proof -
  obtain a b c d where
    "clean_european_number (raw_Revenue x) = Inr a" "clean_european_number (raw_COGS x) = Inr b"
    "clean_european_number (raw_Amazon_Fees x) = Inr c"
    "clean_european_number (raw_Net_Profit x) = Inr d"
    using assms clean_returns unfolding cells_representable_def by metis
  then show ?thesis
    by (simp add: derive_row_def bind_err_def Let_def calculate_health_score_def row_get_def
        series_of_def)
qed

lemma collect_returns:
  "list_all (\<lambda>m. \<exists>y. m = Inr y) ms \<Longrightarrow> \<exists>ys. collect ms = Inr ys"
  by (induction ms) (auto simp: bind_err_def)

lemma process_sku_data_returns:
  assumes "list_all cells_representable df"
  shows "\<exists>out. process_sku_data df = Inr out"
proof -
  have "list_all (\<lambda>m. \<exists>y. m = Inr y) (map derive_row df)"
    using assms by (auto simp: list_all_iff dest: derive_row_returns)
  then obtain rows where "collect (map derive_row df) = Inr rows"
    using collect_returns by blast
  then show ?thesis
    by (simp add: process_sku_data_def bind_err_def)
qed

lemma digit_of_nat:
  assumes "d < 10"
  shows "is_digit (''0123456789'' ! d)" and "digit_val (''0123456789'' ! d) = d"
    and "0 < d \<Longrightarrow> ''0123456789'' ! d \<noteq> CHR ''0''"
proof -
  have "d = 0 \<or> d = 1 \<or> d = 2 \<or> d = 3 \<or> d = 4 \<or> d = 5 \<or> d = 6 \<or> d = 7 \<or> d = 8 \<or> d = 9"
    using assms by arith
  then show "is_digit (''0123456789'' ! d)" and "digit_val (''0123456789'' ! d) = d"
    and "0 < d \<Longrightarrow> ''0123456789'' ! d \<noteq> CHR ''0''"
    by (auto simp: is_digit_def digit_val_def)
qed

lemma str_of_nat_digits: "list_all is_digit (str_of_nat n)"
proof (induction n rule: str_of_nat.induct)
  case (1 n)
  show ?case
  proof (cases "n < 10")
    case True
    then show ?thesis by (simp add: str_of_nat.simps [of n] digit_of_nat)
  next
    case False
    with 1 show ?thesis by (simp add: str_of_nat.simps [of n] digit_of_nat)
  qed
qed

lemma str_of_nat_value: "nat_of_digits (str_of_nat n) = n"
proof (induction n rule: str_of_nat.induct)
  case (1 n)
  show ?case
  proof (cases "n < 10")
    case True
    then show ?thesis by (simp add: str_of_nat.simps [of n] digit_of_nat nat_of_digits_def)
  next
    case False
    with 1 show ?thesis
      by (simp add: str_of_nat.simps [of n] digit_of_nat nat_of_digits_snoc)
  qed
qed

lemma str_of_nat_nonempty: "str_of_nat n \<noteq> []"
  by (simp add: str_of_nat.simps [of n])

lemma str_of_nat_hd: "0 < n \<Longrightarrow> hd (str_of_nat n) \<noteq> CHR ''0''"
proof (induction n rule: str_of_nat.induct)
  case (1 n)
  show ?case
  proof (cases "n < 10")
    case True
    then have "str_of_nat n = [''0123456789'' ! n]"
      by (simp add: str_of_nat.simps [of n])
    then have "hd (str_of_nat n) = ''0123456789'' ! n"
      by (simp only: list.sel)
    with digit_of_nat(3) [OF True "1.prems"] show ?thesis
      by metis
  next
    case False
    then have "0 < n div 10" by simp
    with 1 False show ?thesis
      by (simp add: str_of_nat.simps [of n] str_of_nat_nonempty)
  qed
qed

lemma zfill_str_of_nat:
  "zfill w (str_of_nat n) = replicate (w - length (str_of_nat n)) (CHR ''0'') @ str_of_nat n"
proof -
  obtain c cs where s: "str_of_nat n = c # cs"
    using str_of_nat_nonempty [of n] by (cases "str_of_nat n") auto
  have "is_digit c"
    using str_of_nat_digits [of n] s by simp
  then have "c \<noteq> CHR ''+'' \<and> c \<noteq> CHR ''-''"
    by (simp add: is_digit_cases)
  then show ?thesis
    by (simp add: zfill_def s)
qed

lemma sku_label_padded:
  "\<exists>ds. sku_label i = ''SKU-'' @ ds \<and> padded_decimal 4 (i + 1) ds"
proof -
  let ?s = "str_of_nat (i + 1)"
  let ?ds = "replicate (4 - length ?s) (CHR ''0'') @ ?s"
  have zero: "is_digit (CHR ''0'')"
    by (simp add: is_digit_def)
  have digits: "list_all is_digit ?ds"
    using str_of_nat_digits [of "i + 1"] zero by (auto simp: list_all_iff)
  have val: "decimal_value ?ds = i + 1"
    by (simp only: nat_of_digits_decimal_value [symmetric] nat_of_digits_zeros str_of_nat_value)
  have len: "4 \<le> length ?ds"
    by simp
  have "hd ?ds \<noteq> CHR ''0''" if "4 < length ?ds"
  proof -
    from that have "4 < length ?s" by (simp split: if_splits)
    then have "?ds = ?s" by simp
    then show ?thesis
      using str_of_nat_hd [of "i + 1"] by simp
  qed
  with digits val len have "padded_decimal 4 (i + 1) ?ds"
    unfolding padded_decimal_def by blast
  moreover have "sku_label i = ''SKU-'' @ ?ds"
    by (simp add: sku_label_def zfill_str_of_nat)
  ultimately show ?thesis by blast
qed

lemma sample_revenue: "clean_european_number (CStr ''1 200,50'') = Inr (Fin (2401 / 2))"
  by (simp add: clean_european_number_def isna_def replace_char_def float_of_str_def
      strip_ws_def is_space_def is_digit_def parse_inf_or_nan_def str_lower_def lower_char_def
      parse_decimal_def parse_exponent_def scale10_def nat_of_digits_def digit_val_def
      strtod_result_fin)

lemma sample_cells:
  "clean_european_number (CFloat (Fin a)) = Inr (Fin a)"
  "clean_european_number (CInt (- 180)) = Inr (Fin (- 180))"
  "clean_european_number CNone = Inr (Fin 0)"
  by (simp_all add: clean_european_number_def isna_def float_of_int_fin)

lemma replicate_3: "replicate 3 c = [c, c, c]"
  by (simp add: numeral_3_eq_3)

lemma sample_label_0: "sku_label 0 = ''SKU-0001''"
  by (simp add: sku_label_def zfill_def str_of_nat.simps replicate_3)

lemma sample_label_1: "sku_label (Suc 0) = ''SKU-0002''"
  by (simp add: sku_label_def zfill_def str_of_nat.simps replicate_3)

lemma sample_label_9999: "sku_label 9999 = ''SKU-10000''"
  by (simp add: sku_label_def zfill_def str_of_nat.simps)

lemma sample_metrics_first:
  "derived_metrics ''B00X'' (Fin (2401 / 2)) (Fin (- 400)) (Fin (- 180)) (Fin 200) (Fin 40) (Fin 2)
   = \<lparr>SKU = ''B00X'', Revenue = Fin (2401 / 2), COGS = Fin (- 400), Amazon_Fees = Fin (- 180),
       Net_Profit = Fin 200, Units_Sold = Fin 40, Refunds = Fin 2,
       Margin_Pct = Fin (40000 / 2401), ROI_Pct = Fin 50, Refund_Rate_Pct = Fin 5,
       Avg_Sale_Price = Fin (2401 / 80), Profit_Per_Unit = Fin 5\<rparr>"
  by (simp add: derived_metrics_def np_where_def to_double_fin)

lemma sample_metrics_second:
  "derived_metrics ''B00Y'' (Fin 0) (Fin 0) (Fin 0) (Fin (- 5)) (Fin 0) (Fin 0)
   = \<lparr>SKU = ''B00Y'', Revenue = Fin 0, COGS = Fin 0, Amazon_Fees = Fin 0,
       Net_Profit = Fin (- 5), Units_Sold = Fin 0, Refunds = Fin 0,
       Margin_Pct = Fin 0, ROI_Pct = Fin 0, Refund_Rate_Pct = Fin 0,
       Avg_Sale_Price = Fin 0, Profit_Per_Unit = Fin 0\<rparr>"
  by (simp add: derived_metrics_def np_where_def)

lemma sample_score_first:
  "calculate_health_score (series_of
     \<lparr>SKU = ''B00X'', Revenue = Fin (2401 / 2), COGS = Fin (- 400), Amazon_Fees = Fin (- 180),
       Net_Profit = Fin 200, Units_Sold = Fin 40, Refunds = Fin 2,
       Margin_Pct = Fin (40000 / 2401), ROI_Pct = Fin 50, Refund_Rate_Pct = Fin 5,
       Avg_Sale_Price = Fin (2401 / 80), Profit_Per_Unit = Fin 5\<rparr>) = Inr 75"
  by (simp add: series_of_def calculate_health_score_def row_get_def
      profit_step_def units_step_def roi_step_def margin_step_def)

lemma sample_score_second:
  "calculate_health_score (series_of
     \<lparr>SKU = ''B00Y'', Revenue = Fin 0, COGS = Fin 0, Amazon_Fees = Fin 0,
       Net_Profit = Fin (- 5), Units_Sold = Fin 0, Refunds = Fin 0,
       Margin_Pct = Fin 0, ROI_Pct = Fin 0, Refund_Rate_Pct = Fin 0,
       Avg_Sale_Price = Fin 0, Profit_Per_Unit = Fin 0\<rparr>) = Inr 20"
  by (simp add: series_of_def calculate_health_score_def row_get_def
      profit_step_def units_step_def roi_step_def margin_step_def)

lemma sample_derive_first:
  "derive_row sample_sku = Inr ((sample_out ! 0)\<lparr>SKU := ''B00X''\<rparr>)"
  by (simp add: derive_row_def sample_sku_def bind_err_def sample_revenue sample_cells
      sample_metrics_first sample_score_first scored_def metrics_row.defs sku_row.defs
      assign_performance_tier_def sample_out_def)

lemma sample_derive_second:
  "derive_row idle_sku = Inr ((sample_out ! 1)\<lparr>SKU := ''B00Y''\<rparr>)"
  by (simp add: derive_row_def idle_sku_def bind_err_def sample_cells
      sample_metrics_second sample_score_second scored_def metrics_row.defs sku_row.defs
      assign_performance_tier_def sample_out_def)

lemma sample_table: "process_sku_data [sample_sku, idle_sku] = Inr sample_out"
  by (simp add: process_sku_data_def bind_err_def sample_derive_first sample_derive_second
      sample_label_0 sample_label_1) (simp add: sample_out_def)



text \<open>
  Claim C9. When \<^verbatim>\<open>process_sku_data\<close> returns, the table has as many rows as the
  input and the SKU of row \<open>i\<close> (0-based) is \<^verbatim>\<open>SKU-\<close> followed by the decimal
  digits of \<open>i + 1\<close>, padded with zeros to at least 4 digits (exactly 4 below 10000,
  no leading zero above). It does not depend on the row's original SKU: replacing that
  value leaves the new SKU unchanged. The function returns whenever every cleaned cell
  has a float.
\<close>

theorem sku_relabelled:
  "(process_sku_data df = Inr out \<and> i < length df \<longrightarrow>
      length out = length df \<and> SKU (out ! i) = sku_label i \<and>
      (\<exists>ds. SKU (out ! i) = ''SKU-'' @ ds \<and> padded_decimal 4 (i + 1) ds)) \<and>
   (process_sku_data df = Inr out \<and> i < length df \<and>
    process_sku_data (df[i := (df ! i)\<lparr>raw_SKU := s\<rparr>]) = Inr out' \<longrightarrow>
      SKU (out' ! i) = SKU (out ! i)) \<and>
   (list_all cells_representable df \<longrightarrow> (\<exists>res. process_sku_data df = Inr res)) \<and>
   sku_label 0 = ''SKU-0001'' \<and> sku_label 9999 = ''SKU-10000''"
proof -
  have label: "SKU (t ! j) = sku_label j"
    if "process_sku_data d = Inr t" "j < length d" for d t j
    using process_sku_data_nth [OF that] by auto
  have a: "length out = length df \<and> SKU (out ! i) = sku_label i \<and>
      (\<exists>ds. SKU (out ! i) = ''SKU-'' @ ds \<and> padded_decimal 4 (i + 1) ds)"
    if "process_sku_data df = Inr out" "i < length df"
    using that process_sku_data_length [of df out] label [of df out i] sku_label_padded [of i]
    by simp
  have b: "SKU (out' ! i) = SKU (out ! i)"
    if "process_sku_data df = Inr out" "i < length df"
      "process_sku_data (df[i := (df ! i)\<lparr>raw_SKU := s\<rparr>]) = Inr out'"
    using label [OF that(1,2)] label [OF that(3)] that(2) by simp
  show ?thesis
    using a b process_sku_data_returns [of df] sample_label_0 sample_label_9999 by blast
qed

theorem sku_relabelled_witness:
  "process_sku_data [sample_sku, idle_sku] = Inr sample_out \<and>
   Suc 0 < length [sample_sku, idle_sku] \<and>
   length sample_out = length [sample_sku, idle_sku] \<and>
   SKU (sample_out ! Suc 0) = ''SKU-0002'' \<and>
   process_sku_data ([sample_sku, idle_sku][Suc 0 := ([sample_sku, idle_sku] ! Suc 0)\<lparr>raw_SKU := ''B00Y''\<rparr>])
     = Inr sample_out \<and>
   list_all cells_representable [sample_sku, idle_sku]"
proof -
  have same: "idle_sku\<lparr>raw_SKU := ''B00Y''\<rparr> = idle_sku"
    by (simp add: idle_sku_def)
  have rep: "list_all cells_representable [sample_sku, idle_sku]"
    by (simp add: cells_representable_def representable_def sample_sku_def idle_sku_def
        abs_if dbl_overflow_def)
  show ?thesis
    using sku_relabelled [of "[sample_sku, idle_sku]" sample_out "Suc 0" "''B00Y''" sample_out]
      sample_table rep sample_label_1
    by (simp add: same)
qed




section \<open>Properties of the daily table\<close>

lemma present_simps:
  "present [] = []" "present (None # vs) = present vs" "present (Some x # vs) = x # present vs"
  "present (vs @ ws) = present vs @ present ws"
  by (simp_all add: present_def)

lemma add_mean_state: "add_mean v (window_state vs) = window_state (vs @ [v])"
  by (cases v) (simp_all add: add_mean_def window_state_def present_simps)

lemma remove_mean_state: "remove_mean v (window_state (v # vs)) = window_state vs"
  by (cases v) (simp_all add: remove_mean_def window_state_def present_simps)

lemma calc_mean_state: "calc_mean (Suc 0) (window_state vs) = mean_of_present vs"
  by (cases "present vs") (simp_all add: calc_mean_def window_state_def mean_of_present_def)

lemma window_step:
  assumes "0 < w" "k < length xs"
  shows "add_mean (xs ! k)
           (if w \<le> k then remove_mean (xs ! (k - w)) (window_state (drop (k - w) (take k xs)))
            else window_state (drop (k - w) (take k xs)))
         = window_state (drop (Suc k - w) (take (Suc k) xs))"
proof -
  have tk: "take (Suc k) xs = take k xs @ [xs ! k]"
    using assms(2) by (rule take_Suc_conv_app_nth)
  have after: "drop (Suc k - w) (take (Suc k) xs) = drop (Suc k - w) (take k xs) @ [xs ! k]"
    using assms by (simp add: tk)
  show ?thesis
  proof (cases "w \<le> k")
    case True
    have lt: "k - w < length (take k xs)"
      using assms True by simp
    have "drop (k - w) (take k xs) = take k xs ! (k - w) # drop (Suc (k - w)) (take k xs)"
      by (rule Cons_nth_drop_Suc [OF lt, symmetric])
    moreover have "take k xs ! (k - w) = xs ! (k - w)"
      using assms True by simp
    moreover have "Suc (k - w) = Suc k - w"
      using True by simp
    ultimately have "drop (k - w) (take k xs) = xs ! (k - w) # drop (Suc k - w) (take k xs)"
      by simp
    then show ?thesis
      using True by (simp add: remove_mean_state add_mean_state after)
  next
    case False
    then have "k - w = 0" "Suc k - w = 0"
      by simp_all
    then show ?thesis
      using False by (simp add: add_mean_state tk)
  qed
qed

lemma roll_loop_upt:
  assumes "0 < w" "n \<le> length xs" "st = window_state (drop (k - w) (take k xs))"
  shows "roll_loop w minp xs [k..<n] st
    = map (\<lambda>i. calc_mean minp (window_state (drop (Suc i - w) (take (Suc i) xs)))) [k..<n]"
  using assms
proof (induction "n - k" arbitrary: k st)
  case 0
  then show ?case by simp
next
  case (Suc d)
  then have k: "k < n" and upt: "[k..<n] = k # [Suc k..<n]"
    by (simp_all add: upt_conv_Cons)
  have kx: "k < length xs"
    using k Suc.prems(2) by simp
  let ?st2 = "window_state (drop (Suc k - w) (take (Suc k) xs))"
  have step: "add_mean (xs ! k) (if w \<le> k then remove_mean (xs ! (k - w)) st else st) = ?st2"
    unfolding Suc.prems(3) using Suc.prems(1) kx by (rule window_step)
  have "d = n - Suc k"
    using Suc.hyps(2) by simp
  then have rest: "roll_loop w minp xs [Suc k..<n] ?st2
      = map (\<lambda>i. calc_mean minp (window_state (drop (Suc i - w) (take (Suc i) xs)))) [Suc k..<n]"
    using Suc.prems(1,2) by (intro Suc.hyps(1)) simp_all
  show ?case
    by (simp only: upt roll_loop.simps Let_def step rest list.map)
qed

lemma rolling_mean_length: "length (rolling_mean w minp xs) = length xs"
proof -
  have "length (roll_loop w minp xs js st) = length js" for js st
    by (induction js arbitrary: st) (simp_all add: Let_def)
  then show ?thesis
    by (simp add: rolling_mean_def)
qed

lemma window7_drop_take:
  assumes "i < length xs"
  shows "window7 xs i = drop (i - 6) (take (Suc i) xs)"
proof (rule nth_equalityI)
  show "length (window7 xs i) = length (drop (i - 6) (take (Suc i) xs))"
    using assms by (simp add: window7_def)
next
  fix j assume "j < length (window7 xs i)"
  then have j: "j < Suc i - (i - 6)"
    by (simp add: window7_def)
  then show "window7 xs i ! j = drop (i - 6) (take (Suc i) xs) ! j"
    using assms by (simp add: window7_def nth_map_upt del: upt_Suc)
qed

lemma window7_length: "length (window7 xs i) = min (i + 1) 7"
  by (simp add: window7_def)

lemma rolling_mean_nth:
  assumes "i < length xs"
  shows "rolling_mean 7 (Suc 0) xs ! i = mean_of_present (window7 xs i)"
proof -
  have "rolling_mean 7 (Suc 0) xs
      = map (\<lambda>i. calc_mean (Suc 0) (window_state (drop (Suc i - 7) (take (Suc i) xs)))) [0..<length xs]"
    unfolding rolling_mean_def
    by (rule roll_loop_upt) (simp_all add: window_state_def present_simps)
  moreover have "Suc i - 7 = i - 6"
    by simp
  ultimately show ?thesis
    using assms by (simp add: calc_mean_state window7_drop_take)
qed

lemma mean_of_present_full:
  assumes "list_all (\<lambda>v. v \<noteq> None) vs" "vs \<noteq> []"
  shows "mean_of_present vs = mean_of_records vs"
proof -
  have "length (present vs) = length vs"
    using assms(1) by (induction vs) (auto simp: present_simps)
  moreover have "\<not> list_ex (\<lambda>v. v = None) vs"
    using assms(1) by (auto simp: list_all_iff list_ex_iff)
  ultimately show ?thesis
    using assms(2) by (auto simp: mean_of_present_def mean_of_records_def)
qed

lemma those_length: "those xs = Some ys \<Longrightarrow> length ys = length xs"
  by (induction xs arbitrary: ys) (auto split: option.splits)

lemma those_Some: "list_all (\<lambda>x. x \<noteq> None) xs \<Longrightarrow> \<exists>ys. those xs = Some ys"
  by (induction xs) auto

lemma process_daily_data_Inr:
  assumes "process_daily_data to_datetime df = Inr out"
  obtains rows where "length rows = length df" "sorted (map fst rows)"
    and "out = map (with_averages rows
            (rolling_mean 7 1 (map (\<lambda>p. raw_Net_Profit_d (snd p)) rows))
            (rolling_mean 7 1 (map (\<lambda>p. raw_Units_Sold_d (snd p)) rows))
            (rolling_mean 7 1 (map (\<lambda>p. raw_Revenue_d (snd p)) rows))) [0..<length rows]"
proof -
  obtain dates where d: "those (map (\<lambda>r. to_datetime (raw_Date r)) df) = Some dates"
    using assms by (auto simp: process_daily_data_def split: option.splits)
  let ?rows = "sort_key fst (zip dates df)"
  have "length dates = length df"
    using those_length [OF d] by simp
  then have "length ?rows = length df"
    by simp
  moreover have "sorted (map fst ?rows)"
    by (rule sorted_sort_key)
  moreover have "out = map (with_averages ?rows
            (rolling_mean 7 1 (map (\<lambda>p. raw_Net_Profit_d (snd p)) ?rows))
            (rolling_mean 7 1 (map (\<lambda>p. raw_Units_Sold_d (snd p)) ?rows))
            (rolling_mean 7 1 (map (\<lambda>p. raw_Revenue_d (snd p)) ?rows))) [0..<length ?rows]"
    using assms by (simp add: process_daily_data_def d Let_def)
  ultimately show ?thesis
    by (rule that)
qed

lemma process_daily_data_columns:
  assumes "process_daily_data to_datetime df = Inr out"
  shows "length out = length df" and "sorted (map Date out)"
    and "i < length out \<Longrightarrow>
      Profit_7day_MA (out ! i) = mean_of_present (window7 (map Net_Profit_d out) i) \<and>
      Units_7day_MA (out ! i) = mean_of_present (window7 (map Units_Sold_d out) i) \<and>
      Revenue_7day_MA (out ! i) = mean_of_present (window7 (map Revenue_d out) i)"
proof -
  obtain rows where len: "length rows = length df" and srt: "sorted (map fst rows)"
    and out: "out = map (with_averages rows
            (rolling_mean 7 1 (map (\<lambda>p. raw_Net_Profit_d (snd p)) rows))
            (rolling_mean 7 1 (map (\<lambda>p. raw_Units_Sold_d (snd p)) rows))
            (rolling_mean 7 1 (map (\<lambda>p. raw_Revenue_d (snd p)) rows))) [0..<length rows]"
    using assms by (rule process_daily_data_Inr)
  have cols: "map Date out = map fst rows"
    "map Net_Profit_d out = map (\<lambda>p. raw_Net_Profit_d (snd p)) rows"
    "map Units_Sold_d out = map (\<lambda>p. raw_Units_Sold_d (snd p)) rows"
    "map Revenue_d out = map (\<lambda>p. raw_Revenue_d (snd p)) rows"
    by (rule nth_equalityI; simp add: out with_averages_def)+
  show "length out = length df"
    using out len by simp
  show "sorted (map Date out)"
    using srt by (simp only: cols)
  show "Profit_7day_MA (out ! i) = mean_of_present (window7 (map Net_Profit_d out) i) \<and>
      Units_7day_MA (out ! i) = mean_of_present (window7 (map Units_Sold_d out) i) \<and>
      Revenue_7day_MA (out ! i) = mean_of_present (window7 (map Revenue_d out) i)"
    if "i < length out"
  proof -
    have i: "i < length rows"
      using that out by simp
    then have "out ! i = with_averages rows
            (rolling_mean 7 1 (map (\<lambda>p. raw_Net_Profit_d (snd p)) rows))
            (rolling_mean 7 1 (map (\<lambda>p. raw_Units_Sold_d (snd p)) rows))
            (rolling_mean 7 1 (map (\<lambda>p. raw_Revenue_d (snd p)) rows)) i"
      by (simp add: out)
    then show ?thesis
      using i unfolding cols by (simp add: with_averages_def rolling_mean_nth)
  qed
qed

lemma process_daily_data_returns:
  assumes "list_all (\<lambda>r. to_datetime (raw_Date r) \<noteq> None) df"
  shows "\<exists>res. process_daily_data to_datetime df = Inr res"
proof -
  have "list_all (\<lambda>x. x \<noteq> None) (map (\<lambda>r. to_datetime (raw_Date r)) df)"
    using assms by (simp add: list_all_iff)
  then obtain dates where "those (map (\<lambda>r. to_datetime (raw_Date r)) df) = Some dates"
    using those_Some by blast
  then show ?thesis
    by (simp add: process_daily_data_def Let_def)
qed

lemma window7_nonempty: "window7 xs i \<noteq> []"
  using window7_length [of xs i] by (cases "window7 xs i") simp_all

lemma gap_dates:
  "those (map (\<lambda>r. day_number (raw_Date r)) gap_days) = Some [3, 1, 2]"
  by (simp add: gap_days_def day_number_def is_digit_def nat_of_digits_def digit_val_def)

lemma gap_rolling:
  "rolling_mean 7 (Suc 0) [Some 1, None, Some 3] = [Some 1, Some 1, Some 2]"
  "rolling_mean 7 (Suc 0) [Some 10, Some 20, Some 30] = [Some 10, Some 15, Some 20]"
  "rolling_mean 7 (Suc 0) [Some 100, Some 200, Some 300] = [Some 100, Some 150, Some 200]"
  by (simp_all add: rolling_mean_def upt_rec Let_def add_mean_def calc_mean_def numeral_3_eq_3)

lemma gap_table: "process_daily_data day_number gap_days = Inr gap_out"
  by (simp add: process_daily_data_def gap_dates)
    (simp add: gap_days_def gap_rolling upt_rec numeral_3_eq_3 with_averages_def gap_out_def)

lemma gap_windows:
  "window7 (map Net_Profit_d gap_out) 0 = [Some 1]"
  "window7 (map Units_Sold_d gap_out) 0 = [Some 10]"
  "window7 (map Revenue_d gap_out) 0 = [Some 100]"
  "window7 (map Net_Profit_d gap_out) 2 = [Some 1, None, Some 3]"
  "window7 (map Units_Sold_d gap_out) 2 = [Some 10, Some 20, Some 30]"
  "window7 (map Revenue_d gap_out) 2 = [Some 100, Some 200, Some 300]"
  by (simp_all add: window7_def gap_out_def upt_rec numeral_2_eq_2)

text \<open>
  Claim C8, as amended. When \<^verbatim>\<open>process_daily_data\<close> returns, the table has the rows
  of the input sorted by Date ascending, and at every position \<open>i\<close> (0-based) each of
  Profit_7day_MA, Units_7day_MA and Revenue_7day_MA is the arithmetic mean of the values
  that are present (not NaN) among positions \<open>max(0, i - 6)\<close> through \<open>i\<close> of its
  column, the last \<open>min(i + 1, 7)\<close> records, and NaN when none is present. When no
  value of the window is missing, this is the arithmetic mean over all records of the
  window. The function returns whenever every date parses.
\<close>

theorem moving_averages_over_present:
  "(process_daily_data to_datetime df = Inr out \<and> i < length out \<longrightarrow>
      length out = length df \<and> sorted (map Date out) \<and>
      length (window7 (map Net_Profit_d out) i) = min (i + 1) 7 \<and>
      Profit_7day_MA (out ! i) = mean_of_present (window7 (map Net_Profit_d out) i) \<and>
      Units_7day_MA (out ! i) = mean_of_present (window7 (map Units_Sold_d out) i) \<and>
      Revenue_7day_MA (out ! i) = mean_of_present (window7 (map Revenue_d out) i) \<and>
      (list_all (\<lambda>v. v \<noteq> None) (window7 (map Net_Profit_d out) i) \<longrightarrow>
         Profit_7day_MA (out ! i) = mean_of_records (window7 (map Net_Profit_d out) i)) \<and>
      (list_all (\<lambda>v. v \<noteq> None) (window7 (map Units_Sold_d out) i) \<longrightarrow>
         Units_7day_MA (out ! i) = mean_of_records (window7 (map Units_Sold_d out) i)) \<and>
      (list_all (\<lambda>v. v \<noteq> None) (window7 (map Revenue_d out) i) \<longrightarrow>
         Revenue_7day_MA (out ! i) = mean_of_records (window7 (map Revenue_d out) i))) \<and>
   (list_all (\<lambda>r. to_datetime (raw_Date r) \<noteq> None) df \<longrightarrow>
      (\<exists>res. process_daily_data to_datetime df = Inr res))"
proof -
  have full: "mean_of_present (window7 xs i) = mean_of_records (window7 xs i)"
    if "list_all (\<lambda>v. v \<noteq> None) (window7 xs i)" for xs
    using that window7_nonempty by (rule mean_of_present_full)
  have cols: "length out = length df \<and> sorted (map Date out) \<and>
      Profit_7day_MA (out ! i) = mean_of_present (window7 (map Net_Profit_d out) i) \<and>
      Units_7day_MA (out ! i) = mean_of_present (window7 (map Units_Sold_d out) i) \<and>
      Revenue_7day_MA (out ! i) = mean_of_present (window7 (map Revenue_d out) i)"
    if "process_daily_data to_datetime df = Inr out" "i < length out"
    using process_daily_data_columns(1) [OF that(1)] process_daily_data_columns(2) [OF that(1)]
      process_daily_data_columns(3) [OF that] by blast
  show ?thesis
    using cols process_daily_data_returns [of to_datetime df]
      window7_length [of "map Net_Profit_d out" i]
      full [of "map Net_Profit_d out"] full [of "map Units_Sold_d out"]
      full [of "map Revenue_d out"]
    by (intro conjI impI) (simp_all only:)
qed

theorem moving_averages_over_present_witness:
  "process_daily_data day_number gap_days = Inr gap_out \<and> 2 < length gap_out \<and>
   length gap_out = length gap_days \<and> sorted (map Date gap_out) \<and>
   Profit_7day_MA (gap_out ! 2) = mean_of_present (window7 (map Net_Profit_d gap_out) 2) \<and>
   mean_of_present (window7 (map Net_Profit_d gap_out) 2) = Some 2 \<and>
   list_all (\<lambda>v. v \<noteq> None) (window7 (map Units_Sold_d gap_out) 2) \<and>
   Units_7day_MA (gap_out ! 2) = mean_of_records (window7 (map Units_Sold_d gap_out) 2) \<and>
   mean_of_records (window7 (map Units_Sold_d gap_out) 2) = Some 20 \<and>
   list_all (\<lambda>v. v \<noteq> None) (window7 (map Revenue_d gap_out) 2) \<and>
   Revenue_7day_MA (gap_out ! 2) = mean_of_records (window7 (map Revenue_d gap_out) 2) \<and>
   0 < length gap_out \<and>
   list_all (\<lambda>v. v \<noteq> None) (window7 (map Net_Profit_d gap_out) 0) \<and>
   Profit_7day_MA (gap_out ! 0) = mean_of_records (window7 (map Net_Profit_d gap_out) 0) \<and>
   list_all (\<lambda>r. day_number (raw_Date r) \<noteq> None) gap_days"
proof -
  have len: "2 < length gap_out \<and> 0 < length gap_out"
    by (simp add: gap_out_def)
  have full: "list_all (\<lambda>v. v \<noteq> None) (window7 (map Units_Sold_d gap_out) 2) \<and>
      list_all (\<lambda>v. v \<noteq> None) (window7 (map Revenue_d gap_out) 2) \<and>
      list_all (\<lambda>v. v \<noteq> None) (window7 (map Net_Profit_d gap_out) 0)"
    by (simp add: gap_windows)
  have vals: "mean_of_present (window7 (map Net_Profit_d gap_out) 2) = Some 2 \<and>
      mean_of_records (window7 (map Units_Sold_d gap_out) 2) = Some 20"
    by (simp add: gap_windows mean_of_present_def mean_of_records_def present_def)
  have dates: "list_all (\<lambda>r. day_number (raw_Date r) \<noteq> None) gap_days"
    by (simp add: gap_days_def day_number_def is_digit_def)
  show ?thesis
    using moving_averages_over_present [of day_number gap_days gap_out 2]
      moving_averages_over_present [of day_number gap_days gap_out 0]
      gap_table len full vals dates
    by blast
qed

text \<open>
  Claim C8 as stated fails where a value is missing: with profits 1, NaN, 3 on three
  consecutive days the average at the third day is 2, the mean of the two values present,
  while the arithmetic mean over the three records of the window is NaN.
\<close>

theorem moving_average_skips_missing:
  "process_daily_data day_number gap_days = Inr gap_out \<and>
   window7 (map Net_Profit_d gap_out) 2 = [Some 1, None, Some 3] \<and>
   Profit_7day_MA (gap_out ! 2) = Some 2 \<and>
   mean_of_records (window7 (map Net_Profit_d gap_out) 2) = None"
  using gap_table
  by (simp add: gap_windows mean_of_records_def) (simp add: gap_out_def)

end
